theory Spec2Isabelle
  imports Complex_Main "HOL-Library.Char_ord" "HOL-Library.List_Lexorder"
begin

section \<open>Data model (types.ts)\<close>

datatype NuggetType = QUOTE | LEARNING | INSIGHT

text \<open>
  \<open>BookNugget\<close>: the fields \<open>id\<close> and \<open>type\<close> are named \<open>nid\<close> and \<open>ntype\<close>.
  Optional fields (\<open>source?\<close>, \<open>locationLabel?\<close>, \<open>tags\<close>, which the code reads as
  \<open>nugget.tags || []\<close>) are options, \<open>None\<close> standing for \<open>undefined\<close>.
\<close>

record BookNugget =
  nid :: string
  ntype :: NuggetType
  content :: string
  source :: "string option"
  locationLabel :: "string option"
  sortIndex :: nat
  tags :: "string list option"

text \<open>\<open>NoteItem\<close> carries the fields of a nugget and the chapter it was picked in.\<close>

record NoteItem = BookNugget +
  chapterTitle :: string
  chapterIndex :: nat

text \<open>
  \<open>ChapterData\<close>. The service's JSON is spread into it unchecked, so the title and the
  two flags can be \<open>undefined\<close> at run time: they are options here.
\<close>

record ChapterData =
  title :: "string option"
  nuggets :: "BookNugget list"
  isBackMatter :: "bool option"
  isFrontMatter :: "bool option"

text \<open>\<open>Book\<close>; its field \<open>title\<close> is named \<open>book_title\<close>.\<close>

record Book =
  book_title :: string
  chapters :: "string list"
  chapterLocations :: "string list"

text \<open>
  The estimated cost is an IEEE double, which the model does not round: a double is
  given by the expression that computes it, a literal standing for the double nearest
  to the rational written. Token counts are integers.
\<close>

datatype number = NumLit rat | NumAdd number number | NumMul number number | NumDiv number number

record UsageStats =
  totalInputTokens :: int
  totalOutputTokens :: int
  estimatedCost :: number

section \<open>The extraction service (geminiService)\<close>

text \<open>
  What \<open>ai.models.generateContent\<close> hands back. The remote call is outside the
  repository, so its reply is an input of the model:
  \<^item> \<open>Rejected\<close>: the promise rejects (network or API failure);
  \<^item> \<open>Fulfilled r\<close>: it resolves with \<open>r\<close>, where \<open>usageMetadata r\<close> is \<open>None\<close> when
    the field is missing and \<open>response_text r\<close> is \<open>None\<close> when \<open>response.text\<close> is
    \<open>undefined\<close> or the empty string, and otherwise \<open>Some p\<close> with \<open>p\<close> the outcome of
    \<open>JSON.parse(text.trim())\<close>: a syntax error, \<open>null\<close>, or a value whose properties
    can be read. Of such a value only the properties that the code reads are kept,
    each \<open>None\<close> when absent; \<open>raw_nuggets\<close> is also \<open>None\<close> when the property is not an
    array.
\<close>

record rawNugget =
  raw_id :: string
  raw_type :: NuggetType
  raw_content :: string
  raw_source :: "string option"

record rawData =
  raw_title :: "string option"
  raw_isBoilerplate :: "bool option"
  raw_isFrontMatter :: "bool option"
  raw_isBackMatter :: "bool option"
  raw_nuggets :: "rawNugget list option"

datatype parsed = SyntaxErr | JsonNull | JsonValue rawData

record usageMetadata =
  promptTokenCount :: int
  candidatesTokenCount :: int

record response =
  usageMetadata :: "usageMetadata option"
  response_text :: "parsed option"

datatype reply = Rejected | Fulfilled response

text \<open>
  Exceptions of a scan: a rejected service call, the \<open>SyntaxError\<close> of \<open>JSON.parse\<close>,
  the \<open>TypeError\<close> of reading a property of \<open>null\<close> or \<open>undefined\<close>.
\<close>

datatype failure = ServiceFailure | SyntaxError | TypeError

text \<open>The \<open>usage\<close> object \<open>{ input, output }\<close> of a scan result.\<close>

record usage =
  input_tokens :: int
  output_tokens :: int

record scanResult =
  data :: ChapterData
  usage :: usage

text \<open>Decimal rendering of a number inside a template literal.\<close>

definition digit :: "nat \<Rightarrow> char" where
  "digit d = char_of (of_char CHR ''0'' + d)"

fun showNat :: "nat \<Rightarrow> string" where
  "showNat n = (if n < 10 then [digit n] else showNat (n div 10) @ [digit (n mod 10)])"

declare showNat.simps [simp del]

text \<open>JavaScript truthiness of a possibly missing boolean property.\<close>

definition truthy :: "bool option \<Rightarrow> bool" where
  "truthy b = (b = Some True)"

text \<open>The object that \<open>JSON.parse("{}")\<close> yields: no property is present.\<close>

definition emptyObject :: rawData where
  "emptyObject = \<lparr>raw_title = None, raw_isBoilerplate = None, raw_isFrontMatter = None,
     raw_isBackMatter = None, raw_nuggets = None\<rparr>"

text \<open>\<open>response.usageMetadata || { promptTokenCount: 0, candidatesTokenCount: 0 }\<close>\<close>

definition usageOf :: "response \<Rightarrow> usageMetadata" where
  "usageOf r = (case usageMetadata r of
       None \<Rightarrow> \<lparr>promptTokenCount = 0, candidatesTokenCount = 0\<rparr>
     | Some u \<Rightarrow> u)"

text \<open>\<open>JSON.parse((response.text || "{}").trim())\<close>\<close>

definition parseBody :: "response \<Rightarrow> failure + rawData" where
  "parseBody r = (case response_text r of
       None \<Rightarrow> Inr emptyObject
     | Some SyntaxErr \<Rightarrow> Inl SyntaxError
     | Some JsonNull \<Rightarrow> Inl TypeError
     | Some (JsonValue v) \<Rightarrow> Inr v)"

text \<open>
  The nugget built from a raw one: \<open>{...n, id: `c${chapterIndex}_${n.id}`, locationLabel,
  sortIndex: idx}\<close>. A raw nugget has no \<open>tags\<close>.
\<close>

definition mkNugget :: "nat \<Rightarrow> string option \<Rightarrow> nat \<times> rawNugget \<Rightarrow> BookNugget" where
  "mkNugget chapterIdx label p = (case p of (idx, n) \<Rightarrow>
     \<lparr>nid = ''c'' @ showNat chapterIdx @ ''_'' @ raw_id n, ntype = raw_type n,
      content = raw_content n, source = raw_source n, locationLabel = label,
      sortIndex = idx, tags = None\<rparr>)"

text \<open>
  \<open>scanChapterForNuggets\<close> with six parameters (the variant that \<open>App.tsx\<close> calls with
  the selected nugget types). The first argument is the service's reply.
\<close>

definition scanChapterForNuggets ::
  "reply \<Rightarrow> string option \<Rightarrow> nat \<Rightarrow> string option \<Rightarrow> bool \<Rightarrow> bool \<Rightarrow> NuggetType list
     \<Rightarrow> failure + scanResult" where
  "scanChapterForNuggets rep chapterText chapterIdx label analyzeBackMatter analyzeBoilerplate
       selectedTypes =
    (case rep of
       Rejected \<Rightarrow> Inl ServiceFailure
     | Fulfilled r \<Rightarrow>
        (let u = usageOf r in
         case parseBody r of
           Inl e \<Rightarrow> Inl e
         | Inr rawD \<Rightarrow>
            (let skipBecauseBoilerplate = (truthy (raw_isBoilerplate rawD) \<and> \<not> analyzeBoilerplate);
                 skipBecauseBackMatter = (truthy (raw_isBackMatter rawD) \<and> \<not> analyzeBackMatter)
             in if skipBecauseBoilerplate \<or> skipBecauseBackMatter then
                  Inr \<lparr>data = \<lparr>title = raw_title rawD, nuggets = [],
                                isBackMatter = Some (truthy (raw_isBackMatter rawD)),
                                isFrontMatter = Some (truthy (raw_isBoilerplate rawD))\<rparr>,
                       usage = \<lparr>input_tokens = promptTokenCount u, output_tokens = candidatesTokenCount u\<rparr>\<rparr>
                else
                  (case raw_nuggets rawD of
                     None \<Rightarrow> Inl TypeError
                   | Some ns \<Rightarrow>
                      (let filteredNuggets = filter (\<lambda>n. raw_type n \<in> set selectedTypes) ns
                       in Inr \<lparr>data = \<lparr>title = raw_title rawD,
                                   nuggets = map (mkNugget chapterIdx label)
                                               (enumerate 0 filteredNuggets),
                                   isBackMatter = raw_isBackMatter rawD,
                                   isFrontMatter = raw_isBoilerplate rawD\<rparr>,
                               usage = \<lparr>input_tokens = promptTokenCount u,
                                        output_tokens = candidatesTokenCount u\<rparr>\<rparr>)))))"

text \<open>
  \<open>scanChapterForNuggets\<close> of \<open>services/geminiService.ts\<close>: five parameters, the
  front-matter flag read from \<open>isFrontMatter\<close>, no selection of types.
\<close>

definition scanChapterForNuggets_services ::
  "reply \<Rightarrow> string option \<Rightarrow> nat \<Rightarrow> string option \<Rightarrow> bool \<Rightarrow> bool \<Rightarrow> failure + scanResult" where
  "scanChapterForNuggets_services rep chapterText chapterIdx label analyzeBackMatter
       analyzeFrontMatter =
    (case rep of
       Rejected \<Rightarrow> Inl ServiceFailure
     | Fulfilled r \<Rightarrow>
        (let u = usageOf r in
         case parseBody r of
           Inl e \<Rightarrow> Inl e
         | Inr rawD \<Rightarrow>
            (let skipBecauseBackMatter = (truthy (raw_isBackMatter rawD) \<and> \<not> analyzeBackMatter);
                 skipBecauseFrontMatter = (truthy (raw_isFrontMatter rawD) \<and> \<not> analyzeFrontMatter)
             in if skipBecauseBackMatter \<or> skipBecauseFrontMatter then
                  Inr \<lparr>data = \<lparr>title = raw_title rawD, nuggets = [],
                                isBackMatter = Some (truthy (raw_isBackMatter rawD)),
                                isFrontMatter = Some (truthy (raw_isFrontMatter rawD))\<rparr>,
                       usage = \<lparr>input_tokens = promptTokenCount u, output_tokens = candidatesTokenCount u\<rparr>\<rparr>
                else
                  (case raw_nuggets rawD of
                     None \<Rightarrow> Inl TypeError
                   | Some ns \<Rightarrow>
                      Inr \<lparr>data = \<lparr>title = raw_title rawD,
                                  nuggets = map (mkNugget chapterIdx label) (enumerate 0 ns),
                                  isBackMatter = raw_isBackMatter rawD,
                                  isFrontMatter = raw_isFrontMatter rawD\<rparr>,
                           usage = \<lparr>input_tokens = promptTokenCount u,
                                    output_tokens = candidatesTokenCount u\<rparr>\<rparr>))))"

section \<open>Book parsing (bookParser.ts)\<close>

text \<open>
  An uploaded file: its name and what the decoding library finds in it. Decoding is
  done by libraries outside the repository (pdf.js, JSZip, the DOM parser), so a file
  is given by the decoded content: the pages of a PDF, each the \<open>str\<close> properties of
  its text items (\<open>None\<close> when an item has none), or the entries of a ZIP archive,
  each a name with the text of the parsed document's body
  (\<open>doc.body.innerText || doc.body.textContent || ''\<close>); entry names are the keys of
  an object, hence distinct. \<open>file_error\<close> is the message of the exception that the
  library raises when it cannot decode the file.
\<close>

type_synonym page = "string option list"

datatype fileContent = Unreadable | PdfDocument "page list" | ZipArchive "(string \<times> string) list"

record File =
  file_name :: string
  file_content :: fileContent
  file_error :: string

text \<open>
  Exceptions of an upload: the error that \<open>handleFileUpload\<close> throws for a file name
  that is neither PDF nor EPUB, and the error of a library, with its message.
\<close>

datatype uploadError = UnsupportedFormat | LibraryError string

definition errorMessage :: "uploadError \<Rightarrow> string" where
  "errorMessage e = (case e of
       UnsupportedFormat \<Rightarrow> ''Unsupported format. Please upload PDF or EPUB.''
     | LibraryError m \<Rightarrow> m)"

record parseResult =
  parsed_title :: string
  chunks :: "string list"
  locations :: "string list"

text \<open>
  String helpers of JavaScript. A \<open>char\<close> stands for a code unit below 256. Of the
  characters that \<open>trim\<close> strips and \<open>\\s\<close> matches (white space and line
  terminators), those below 256 are tab, line feed, vertical tab, form feed, carriage
  return, space and the no-break space U+00A0.
\<close>

definition isSpace :: "char \<Rightarrow> bool" where
  "isSpace c =
     (c \<in> set [CHR 0x09, CHR 0x0A, CHR 0x0B, CHR 0x0C, CHR 0x0D, CHR '' '', CHR 0xA0])"

definition trim :: "string \<Rightarrow> string" where
  "trim s = rev (dropWhile isSpace (rev (dropWhile isSpace s)))"

definition toLowerCase :: "string \<Rightarrow> string" where
  "toLowerCase s = map (\<lambda>c. if CHR ''A'' \<le> c \<and> c \<le> CHR ''Z''
                               then char_of (of_char c + (32::nat)) else c) s"

definition endsWith :: "string \<Rightarrow> string \<Rightarrow> bool" where
  "endsWith s suffix = (length suffix \<le> length s \<and> drop (length s - length suffix) s = suffix)"

text \<open>\<open>s.replace(pat, rep)\<close> with a string pattern: the first occurrence only.\<close>

fun replaceFirst :: "string \<Rightarrow> string \<Rightarrow> string \<Rightarrow> string" where
  "replaceFirst pat rep [] = (if pat = [] then rep else [])"
| "replaceFirst pat rep (c # cs) =
     (if take (length pat) (c # cs) = pat then rep @ drop (length pat) (c # cs)
      else c # replaceFirst pat rep cs)"

fun joinWith :: "string \<Rightarrow> string list \<Rightarrow> string" where
  "joinWith sep [] = []"
| "joinWith sep [x] = x"
| "joinWith sep (x # y # ys) = x @ sep @ joinWith sep (y # ys)"

text \<open>\<open>textContent.items.map(item => item.str || '').join(' ') + '\n\n'\<close>\<close>

definition pageText :: "page \<Rightarrow> string" where
  "pageText items =
     joinWith '' '' (map (\<lambda>i. case i of None \<Rightarrow> [] | Some t \<Rightarrow> t) items) @ [CHR 0x0A, CHR 0x0A]"

text \<open>
  The inner loop of \<open>parsePdf\<close> over the pages \<open>i..end\<close> (numbered from 1), and the
  location label of a chunk.
\<close>

definition pdfChunkText :: "page list \<Rightarrow> nat \<Rightarrow> nat \<Rightarrow> string" where
  "pdfChunkText pages i endPage = concat (map pageText (take (endPage + 1 - i) (drop (i - 1) pages)))"

definition pdfLocation :: "nat \<Rightarrow> nat \<Rightarrow> string" where
  "pdfLocation i endPage =
     (if i = endPage then ''Page '' @ showNat i else ''Pages '' @ showNat i @ ''-'' @ showNat endPage)"

text \<open>
  The outer loop, \<open>for (let i = 1; i <= pdf.numPages; i += 3)\<close>, with the two arrays it
  pushes to.
\<close>

function pdfLoop :: "page list \<Rightarrow> nat \<Rightarrow> string list \<times> string list \<Rightarrow> string list \<times> string list" where
  "pdfLoop pages i acc =
     (if i \<le> length pages then
        pdfLoop pages (i + 3)
          (fst acc @ [pdfChunkText pages i (min (i + 2) (length pages))],
           snd acc @ [pdfLocation i (min (i + 2) (length pages))])
      else acc)"
  by pat_completeness auto
termination
  by (relation "measure (\<lambda>(pages, i, acc). length pages + 1 - i)") auto

declare pdfLoop.simps [simp del]

definition parsePdf :: "File \<Rightarrow> uploadError + parseResult" where
  "parsePdf file =
     (case file_content file of
        PdfDocument pages \<Rightarrow>
          (let r = pdfLoop pages 1 ([], [])
           in Inr \<lparr>parsed_title = replaceFirst ''.pdf'' [] (file_name file),
                    chunks = fst r, locations = snd r\<rparr>)
      | _ \<Rightarrow> Inl (LibraryError (file_error file)))"

text \<open>
  The loop of \<open>parseEpub\<close> over the sorted entry names, with the counter of the pushed
  sections: an entry is kept when its name ends in \<open>.xhtml\<close> or \<open>.html\<close> and its trimmed
  text is longer than 100 characters.
\<close>

fun epubLoop :: "(string \<times> string) list \<Rightarrow> nat \<Rightarrow> string list \<times> string list \<Rightarrow> string list \<times> string list" where
  "epubLoop [] count acc = acc"
| "epubLoop ((name, txt) # rest) count acc =
     (if endsWith name ''.xhtml'' \<or> endsWith name ''.html'' then
        (if length (trim txt) > 100 then
           epubLoop rest (count + 1) (fst acc @ [txt], snd acc @ [''Section '' @ showNat (count + 1)])
         else epubLoop rest count acc)
      else epubLoop rest count acc)"

definition parseEpub :: "File \<Rightarrow> uploadError + parseResult" where
  "parseEpub file =
     (case file_content file of
        ZipArchive entries \<Rightarrow>
          (let r = epubLoop (sort_key fst entries) 0 ([], [])
           in Inr \<lparr>parsed_title = replaceFirst ''.epub'' [] (file_name file),
                    chunks = fst r, locations = snd r\<rparr>)
      | _ \<Rightarrow> Inl (LibraryError (file_error file)))"

text \<open>The choice of the parser in \<open>handleFileUpload\<close>, by the file name.\<close>

definition parseUpload :: "File \<Rightarrow> uploadError + parseResult" where
  "parseUpload file =
     (if endsWith (toLowerCase (file_name file)) ''.pdf'' then parsePdf file
      else if endsWith (toLowerCase (file_name file)) ''.epub'' then parseEpub file
      else Inl UnsupportedFormat)"

section \<open>The application state (App.tsx)\<close>

text \<open>\<open>calculateCost\<close>, with the operations in the order of the source.\<close>

definition COST_PER_1M_INPUT :: number where
  "COST_PER_1M_INPUT = NumLit (75 / 1000)"

definition COST_PER_1M_OUTPUT :: number where
  "COST_PER_1M_OUTPUT = NumLit (30 / 100)"

definition calculateCost :: "int \<Rightarrow> int \<Rightarrow> number" where
  "calculateCost inputTokens outputTokens =
     NumAdd (NumMul (NumDiv (NumLit (of_int inputTokens)) (NumLit 1000000)) COST_PER_1M_INPUT)
            (NumMul (NumDiv (NumLit (of_int outputTokens)) (NumLit 1000000)) COST_PER_1M_OUTPUT)"

text \<open>The JSON blob kept in \<open>localStorage\<close> under the book's key.\<close>

record Snapshot =
  saved_chapterIndex :: nat
  saved_notes :: "NoteItem list"
  saved_stats :: UsageStats

text \<open>
  What the callbacks \<open>prefetchNext\<close> and \<open>analyzeChapter\<close> of one render close over:
  the book and the three filters (their \<open>useCallback\<close> dependencies). A call that is
  suspended at \<open>await\<close> goes on with the values of the render that started it.
\<close>

record Closure =
  cl_book :: "Book option"
  cl_backMatter :: bool
  cl_boilerplate :: bool
  cl_types :: "NuggetType list"

text \<open>
  An outstanding call of \<open>scanChapterForNuggets\<close>: who awaits it (\<open>analyzeChapter\<close>
  or \<open>prefetchNext\<close>), for which index, under which closure.
\<close>

datatype fetchKind = Direct | Prefetch

record Request =
  req_kind :: fetchKind
  req_index :: nat
  req_closure :: Closure

text \<open>
  The state of the component: the \<open>useState\<close> cells that the controller reads or
  writes, the two refs (\<open>cachedChapters\<close>, \<open>isPrefetching\<close>), the browser's
  \<open>localStorage\<close>, and what is pending in the event loop: the calls in flight and the
  timers \<open>setTimeout(() => prefetchNext(index + 1), 500)\<close>, each an index with the
  closure of its \<open>prefetchNext\<close>. The cell \<open>notes\<close> is named \<open>noteList\<close>. The cells of the theme, the search box, the tag
  editor and the navigation drawer are left out.
\<close>

record AppState =
  book :: "Book option"
  currentChapterIndex :: nat
  currentChapterData :: "ChapterData option"
  noteList :: "NoteItem list"
  isAnalyzing :: bool
  error :: "string option"
  stats :: UsageStats
  analyzeBackMatter :: bool
  analyzeBoilerplate :: bool
  selectedNuggetTypes :: "NuggetType list"
  cachedChapters :: "nat \<rightharpoonup> ChapterData"
  isPrefetching :: bool
  localStorage :: "string \<rightharpoonup> Snapshot"
  inflight :: "Request list"
  timers :: "(nat \<times> Closure) list"

definition zeroStats :: UsageStats where
  "zeroStats = \<lparr>totalInputTokens = 0, totalOutputTokens = 0, estimatedCost = NumLit 0\<rparr>"

text \<open>The state at mount, over a given content of \<open>localStorage\<close>.\<close>

definition initialState :: "(string \<rightharpoonup> Snapshot) \<Rightarrow> AppState" where
  "initialState store =
     \<lparr>book = None, currentChapterIndex = 0, currentChapterData = None, noteList = [],
      isAnalyzing = False, error = None, stats = zeroStats,
      analyzeBackMatter = False, analyzeBoilerplate = False,
      selectedNuggetTypes = [QUOTE, LEARNING, INSIGHT],
      cachedChapters = Map.empty, isPrefetching = False, localStorage = store,
      inflight = [], timers = []\<rparr>"

definition closureOf :: "AppState \<Rightarrow> Closure" where
  "closureOf s = \<lparr>cl_book = book s, cl_backMatter = analyzeBackMatter s,
     cl_boilerplate = analyzeBoilerplate s, cl_types = selectedNuggetTypes s\<rparr>"

text \<open>\<open>`manan_progress_${book.title.replace(/\\s/g, '_')}`\<close>\<close>

definition storageKey :: "Book \<Rightarrow> string" where
  "storageKey b = ''manan_progress_'' @ map (\<lambda>c. if isSpace c then CHR ''_'' else c) (book_title b)"

text \<open>Array indexing, \<open>undefined\<close> out of range.\<close>

definition nth_opt :: "'a list \<Rightarrow> nat \<Rightarrow> 'a option" where
  "nth_opt xs i = (if i < length xs then Some (xs ! i) else None)"

definition removeAt :: "nat \<Rightarrow> 'a list \<Rightarrow> 'a list" where
  "removeAt k xs = take k xs @ drop (Suc k) xs"

subsection \<open>Fetching: \<open>prefetchNext\<close> and \<open>analyzeChapter\<close>\<close>

text \<open>The updater passed to \<open>setStats\<close> by both completion handlers.\<close>

definition addUsage :: "usage \<Rightarrow> UsageStats \<Rightarrow> UsageStats" where
  "addUsage u prev =
     (let newCost = calculateCost (input_tokens u) (output_tokens u)
      in \<lparr>totalInputTokens = totalInputTokens prev + input_tokens u,
          totalOutputTokens = totalOutputTokens prev + output_tokens u,
          estimatedCost = NumAdd (estimatedCost prev) newCost\<rparr>)"

text \<open>
  The call \<open>scanChapterForNuggets(book.chapters[index], index,
  book.chapterLocations[index], analyzeBackMatter, analyzeBoilerplate,
  selectedNuggetTypes)\<close> of a request, completed by the service's reply.
\<close>

definition scanFor :: "Request \<Rightarrow> reply \<Rightarrow> failure + scanResult" where
  "scanFor q rep =
     (let cl = req_closure q;
          chs = (case cl_book cl of None \<Rightarrow> [] | Some b \<Rightarrow> chapters b);
          locs = (case cl_book cl of None \<Rightarrow> [] | Some b \<Rightarrow> chapterLocations b)
      in scanChapterForNuggets rep (nth_opt chs (req_index q)) (req_index q)
           (nth_opt locs (req_index q)) (cl_backMatter cl) (cl_boilerplate cl) (cl_types cl))"

text \<open>\<open>prefetchNext\<close> up to its \<open>await\<close>.\<close>

definition prefetchNext :: "Closure \<Rightarrow> nat \<Rightarrow> AppState \<Rightarrow> AppState" where
  "prefetchNext cl index s =
     (case cl_book cl of
        None \<Rightarrow> s
      | Some b \<Rightarrow>
          if index \<ge> length (chapters b) \<or> cachedChapters s index \<noteq> None \<or> isPrefetching s then s
          else s\<lparr>isPrefetching := True,
                 inflight := inflight s @ [\<lparr>req_kind = Prefetch, req_index = index, req_closure = cl\<rparr>]\<rparr>)"

text \<open>\<open>prefetchNext\<close> from its \<open>await\<close> on: \<open>try\<close> body, \<open>catch\<close>, \<open>finally\<close>.\<close>

definition prefetchNext_settled :: "Request \<Rightarrow> reply \<Rightarrow> AppState \<Rightarrow> AppState" where
  "prefetchNext_settled q rep s =
     (case scanFor q rep of
        Inr result \<Rightarrow>
          s\<lparr>cachedChapters := (cachedChapters s)(req_index q \<mapsto> data result),
            stats := addUsage (usage result) (stats s),
            isPrefetching := False\<rparr>
      | Inl e \<Rightarrow> s\<lparr>isPrefetching := False\<rparr>)"

text \<open>\<open>analyzeChapter\<close> up to its \<open>await\<close> (or to its early return on a cache hit).\<close>

definition analyzeChapter :: "Closure \<Rightarrow> nat \<Rightarrow> AppState \<Rightarrow> AppState" where
  "analyzeChapter cl index s =
     (case cl_book cl of
        None \<Rightarrow> s
      | Some b \<Rightarrow>
          (case cachedChapters s index of
             Some d \<Rightarrow> s\<lparr>currentChapterData := Some d, timers := timers s @ [(index + 1, cl)]\<rparr>
           | None \<Rightarrow>
               s\<lparr>isAnalyzing := True, error := None,
                 inflight := inflight s @ [\<lparr>req_kind = Direct, req_index = index, req_closure = cl\<rparr>]\<rparr>))"

text \<open>\<open>analyzeChapter\<close> from its \<open>await\<close> on.\<close>

definition analyzeChapter_settled :: "Request \<Rightarrow> reply \<Rightarrow> AppState \<Rightarrow> AppState" where
  "analyzeChapter_settled q rep s =
     (case scanFor q rep of
        Inr result \<Rightarrow>
          s\<lparr>currentChapterData := Some (data result),
            cachedChapters := (cachedChapters s)(req_index q \<mapsto> data result),
            stats := addUsage (usage result) (stats s),
            timers := timers s @ [(req_index q + 1, req_closure q)],
            isAnalyzing := False\<rparr>
      | Inl e \<Rightarrow>
          s\<lparr>error := Some ''Analysis failed. Please check your internet connection and API key.'',
            isAnalyzing := False\<rparr>)"

subsection \<open>The selection of notes\<close>

text \<open>The comparator given to \<open>sort\<close> in \<open>toggleNote\<close>.\<close>

definition compareNotes :: "NoteItem \<Rightarrow> NoteItem \<Rightarrow> int" where
  "compareNotes a b =
     (if chapterIndex a \<noteq> chapterIndex b then int (chapterIndex a) - int (chapterIndex b)
      else int (sortIndex a) - int (sortIndex b))"

text \<open>
  \<open>Array.prototype.sort\<close> with a comparator is stable. It is modelled by insertion from
  the left, each element going behind those that do not compare greater.
\<close>

fun insertBy :: "('a \<Rightarrow> 'a \<Rightarrow> int) \<Rightarrow> 'a \<Rightarrow> 'a list \<Rightarrow> 'a list" where
  "insertBy cmp x [] = [x]"
| "insertBy cmp x (y # ys) = (if cmp x y < 0 then x # y # ys else y # insertBy cmp x ys)"

definition sortBy :: "('a \<Rightarrow> 'a \<Rightarrow> int) \<Rightarrow> 'a list \<Rightarrow> 'a list" where
  "sortBy cmp xs = foldl (\<lambda>acc x. insertBy cmp x acc) [] xs"

text \<open>\<open>currentChapterData?.title || `Section ${currentChapterIndex + 1}`\<close>\<close>

definition currentTitle :: "AppState \<Rightarrow> string" where
  "currentTitle s =
     (case currentChapterData s of
        None \<Rightarrow> ''Section '' @ showNat (currentChapterIndex s + 1)
      | Some d \<Rightarrow>
          (case title d of
             None \<Rightarrow> ''Section '' @ showNat (currentChapterIndex s + 1)
           | Some t \<Rightarrow> if t = [] then ''Section '' @ showNat (currentChapterIndex s + 1) else t))"

definition toggleNote :: "BookNugget \<Rightarrow> AppState \<Rightarrow> AppState" where
  "toggleNote nugget s =
     (case find (\<lambda>n. nid n = nid nugget) (noteList s) of
        Some found \<Rightarrow> s\<lparr>noteList := filter (\<lambda>n. nid n \<noteq> nid nugget) (noteList s)\<rparr>
      | None \<Rightarrow>
          (let newNote =
                 \<lparr>nid = nid nugget, ntype = ntype nugget, content = content nugget,
                  source = source nugget, locationLabel = locationLabel nugget,
                  sortIndex = sortIndex nugget,
                  tags = Some (case tags nugget of None \<Rightarrow> [] | Some t \<Rightarrow> t),
                  chapterTitle = currentTitle s, chapterIndex = currentChapterIndex s\<rparr>
           in s\<lparr>noteList := sortBy compareNotes (noteList s @ [newNote])\<rparr>))"

definition updateNuggetTags :: "string \<Rightarrow> string list \<Rightarrow> AppState \<Rightarrow> AppState" where
  "updateNuggetTags nuggetId tgs s =
     (let s1 = (case currentChapterData s of
                  None \<Rightarrow> s
                | Some d \<Rightarrow>
                    (let updatedNuggets =
                           map (\<lambda>n. if nid n = nuggetId then n\<lparr>tags := Some tgs\<rparr> else n) (nuggets d)
                     in s\<lparr>currentChapterData := Some (d\<lparr>nuggets := updatedNuggets\<rparr>)\<rparr>))
      in s1\<lparr>noteList := map (\<lambda>n. if nid n = nuggetId then n\<lparr>tags := Some tgs\<rparr> else n) (noteList s)\<rparr>)"

subsection \<open>Filters, navigation, closing\<close>

definition toggleNuggetTypePreference :: "NuggetType \<Rightarrow> AppState \<Rightarrow> AppState" where
  "toggleNuggetTypePreference t s =
     (let next = (if t \<in> set (selectedNuggetTypes s)
                  then filter (\<lambda>x. x \<noteq> t) (selectedNuggetTypes s)
                  else selectedNuggetTypes s @ [t])
      in analyzeChapter (closureOf s) (currentChapterIndex s)
           (s\<lparr>selectedNuggetTypes := next, cachedChapters := Map.empty\<rparr>))"

text \<open>The two inline \<open>onClick\<close> handlers of the "Metadata" and "Back-Matter" switches.\<close>

definition toggleAnalyzeBoilerplate :: "AppState \<Rightarrow> AppState" where
  "toggleAnalyzeBoilerplate s =
     s\<lparr>analyzeBoilerplate := \<not> analyzeBoilerplate s, cachedChapters := Map.empty\<rparr>"

definition toggleAnalyzeBackMatter :: "AppState \<Rightarrow> AppState" where
  "toggleAnalyzeBackMatter s =
     s\<lparr>analyzeBackMatter := \<not> analyzeBackMatter s, cachedChapters := Map.empty\<rparr>"

definition jumpToChapter :: "nat \<Rightarrow> AppState \<Rightarrow> AppState" where
  "jumpToChapter index s = s\<lparr>currentChapterIndex := index\<rparr>"

definition reset :: "AppState \<Rightarrow> AppState" where
  "reset s =
     s\<lparr>book := None, noteList := [], currentChapterIndex := 0, currentChapterData := None,
       cachedChapters := Map.empty, stats := zeroStats\<rparr>"

text \<open>
  \<open>downloadNotes\<close>: the Markdown file it offers for download is no part of the state;
  the argument is the user's answer to \<open>confirm\<close>.
\<close>

definition downloadNotes :: "bool \<Rightarrow> AppState \<Rightarrow> AppState" where
  "downloadNotes confirmed s =
     (if noteList s = [] then s
      else if confirmed then
        reset (case book s of
                 None \<Rightarrow> s
               | Some b \<Rightarrow> s\<lparr>localStorage := (localStorage s)(storageKey b := None)\<rparr>)
      else s)"

text \<open>
  \<open>handleFileUpload\<close>, the parsing taken as one step. Its \<open>catch\<close> shows
  \<open>err.message || 'Error parsing book'\<close>.
\<close>

definition handleFileUpload :: "File \<Rightarrow> AppState \<Rightarrow> AppState" where
  "handleFileUpload uploadedFile s =
     (let s1 = s\<lparr>error := None, cachedChapters := Map.empty\<rparr>
      in case parseUpload uploadedFile of
           Inr result \<Rightarrow>
             s1\<lparr>book := Some \<lparr>book_title = parsed_title result, chapters = chunks result,
                                chapterLocations = locations result\<rparr>,
                currentChapterIndex := 0\<rparr>
         | Inl err \<Rightarrow>
             s1\<lparr>error := Some (if errorMessage err = [] then ''Error parsing book''
                                else errorMessage err)\<rparr>)"

subsection \<open>Effects\<close>

text \<open>
  The three effects of the component, in the order of their declaration. Each runs
  after a render in which one of its dependencies has changed, reads the cells of that
  render and queues its own writes for the next one. The writes of one handler, and
  those of one round of effects, are applied together in one render (batching).
\<close>

text \<open>Restoring the progress: dependency \<open>storageKey\<close>.\<close>

definition loadProgress :: "AppState \<Rightarrow> AppState \<Rightarrow> AppState" where
  "loadProgress rendered s =
     (case book rendered of
        None \<Rightarrow> s
      | Some b \<Rightarrow>
          (case localStorage s (storageKey b) of
             None \<Rightarrow> s
           | Some saved \<Rightarrow>
               s\<lparr>currentChapterIndex := saved_chapterIndex saved, noteList := saved_notes saved,
                 stats := saved_stats saved\<rparr>))"

text \<open>
  Saving the progress: dependencies \<open>currentChapterIndex\<close>, \<open>notes\<close>, \<open>stats\<close>,
  \<open>storageKey\<close>, \<open>book\<close>.
\<close>

definition saveProgress :: "AppState \<Rightarrow> AppState \<Rightarrow> AppState" where
  "saveProgress rendered s =
     (case book rendered of
        None \<Rightarrow> s
      | Some b \<Rightarrow>
          s\<lparr>localStorage := (localStorage s)(storageKey b \<mapsto>
               \<lparr>saved_chapterIndex = currentChapterIndex rendered, saved_notes = noteList rendered,
                saved_stats = stats rendered\<rparr>)\<rparr>)"

text \<open>
  Analysing the current chapter: dependencies \<open>book\<close>, \<open>currentChapterIndex\<close>,
  \<open>analyzeChapter\<close>, the last one a new function whenever the book or a filter changes.
\<close>

definition analyzeCurrent :: "AppState \<Rightarrow> AppState \<Rightarrow> AppState" where
  "analyzeCurrent rendered s =
     (if book rendered \<noteq> None \<and> \<not> isAnalyzing rendered
      then analyzeChapter (closureOf rendered) (currentChapterIndex rendered) s
      else s)"

text \<open>
  One round of effects after the render \<open>cur\<close> that follows the render \<open>prev\<close>.
  Dependencies are compared by value; \<open>replaced\<close> says that \<open>setBook\<close> has stored a
  new object, which differs from the former book even when it has the same content.
\<close>

definition runEffects :: "bool \<Rightarrow> AppState \<Rightarrow> AppState \<Rightarrow> AppState" where
  "runEffects replaced prev cur =
     (let s1 = (if map_option storageKey (book prev) \<noteq> map_option storageKey (book cur)
                then loadProgress cur cur else cur);
          s2 = (if replaced \<or> book prev \<noteq> book cur
                   \<or> currentChapterIndex prev \<noteq> currentChapterIndex cur
                   \<or> noteList prev \<noteq> noteList cur \<or> stats prev \<noteq> stats cur
                then saveProgress cur s1 else s1);
          s3 = (if replaced \<or> closureOf prev \<noteq> closureOf cur
                   \<or> currentChapterIndex prev \<noteq> currentChapterIndex cur
                then analyzeCurrent cur s2 else s2)
      in s3)"

text \<open>
  After a handler has turned the state \<open>prev\<close> into \<open>cur\<close>: the effects of the new
  render, then those of the render that their own writes cause. A third round would
  find no dependency changed.
\<close>

definition commit :: "bool \<Rightarrow> AppState \<Rightarrow> AppState \<Rightarrow> AppState" where
  "commit replaced prev cur = runEffects False cur (runEffects replaced prev cur)"

subsection \<open>Events\<close>

text \<open>
  What can happen to the component: the user's actions, a timer that fires, and a call
  to the service that settles with a reply. Timers and calls are addressed by their
  position in the list of pending ones, so they may fire and settle in any order.
\<close>

datatype Event =
    Upload File
  | Jump nat
  | ToggleType NuggetType
  | ToggleBoilerplate
  | ToggleBackMatter
  | Toggle BookNugget
  | UpdateTags string "string list"
  | Close
  | Export bool
  | TimerFires nat
  | Settle nat reply

text \<open>
  The controls of navigation, of the two matter filters and of closing are rendered
  only while a book is loaded; navigation offers the indices of the book's chapters.
  The buttons of the nugget types are on the landing page as well.
\<close>

fun step :: "Event \<Rightarrow> AppState \<Rightarrow> AppState" where
  "step (Upload f) s =
     commit (case parseUpload f of Inr r \<Rightarrow> True | Inl e \<Rightarrow> False) s (handleFileUpload f s)"
| "step (Jump i) s =
     (case book s of
        None \<Rightarrow> s
      | Some b \<Rightarrow> if i < length (chapters b) then commit False s (jumpToChapter i s) else s)"
| "step (ToggleType t) s = commit False s (toggleNuggetTypePreference t s)"
| "step ToggleBoilerplate s =
     (if book s = None then s else commit False s (toggleAnalyzeBoilerplate s))"
| "step ToggleBackMatter s =
     (if book s = None then s else commit False s (toggleAnalyzeBackMatter s))"
| "step (Toggle nugget) s = commit False s (toggleNote nugget s)"
| "step (UpdateTags nuggetId tgs) s = commit False s (updateNuggetTags nuggetId tgs s)"
| "step Close s = (if book s = None then s else commit False s (reset s))"
| "step (Export confirmed) s = commit False s (downloadNotes confirmed s)"
| "step (TimerFires k) s =
     (if k < length (timers s) then
        (case timers s ! k of
           (index, cl) \<Rightarrow> commit False s (prefetchNext cl index (s\<lparr>timers := removeAt k (timers s)\<rparr>)))
      else s)"
| "step (Settle k rep) s =
     (if k < length (inflight s) then
        (let q = inflight s ! k;
             s0 = s\<lparr>inflight := removeAt k (inflight s)\<rparr>
         in commit False s
              (case req_kind q of
                 Direct \<Rightarrow> analyzeChapter_settled q rep s0
               | Prefetch \<Rightarrow> prefetchNext_settled q rep s0))
      else s)"

definition run :: "Event list \<Rightarrow> AppState \<Rightarrow> AppState" where
  "run evs s = foldl (\<lambda>st ev. step ev st) s evs"

section \<open>Notions used in the statements\<close>

text \<open>A ledger of notes in the order of the comparator of \<open>toggleNote\<close>.\<close>

definition ledgerSorted :: "NoteItem list \<Rightarrow> bool" where
  "ledgerSorted ns = sorted_wrt (\<lambda>a b. compareNotes a b \<le> 0) ns"

text \<open>The ledger and every snapshot in \<open>localStorage\<close> are in that order.\<close>

definition storeSorted :: "AppState \<Rightarrow> bool" where
  "storeSorted s \<longleftrightarrow> ledgerSorted (noteList s)
     \<and> (\<forall>k snap. localStorage s k = Some snap \<longrightarrow> ledgerSorted (saved_notes snap))"

text \<open>The calls in flight that stem from \<open>prefetchNext\<close>.\<close>

definition prefetchesInFlight :: "AppState \<Rightarrow> Request list" where
  "prefetchesInFlight s = filter (\<lambda>q. req_kind q = Prefetch) (inflight s)"


text \<open>Two renders that agree on the dependencies of the loading and analysing effects.\<close>

definition sameDeps :: "AppState \<Rightarrow> AppState \<Rightarrow> bool" where
  "sameDeps p c \<longleftrightarrow> book p = book c \<and> currentChapterIndex p = currentChapterIndex c
     \<and> analyzeBackMatter p = analyzeBackMatter c \<and> analyzeBoilerplate p = analyzeBoilerplate c
     \<and> selectedNuggetTypes p = selectedNuggetTypes c"

subsection \<open>Sample inputs\<close>

text \<open>A PDF of seven pages, hence of three chunks, and replies of the service.\<close>

definition sampleFile :: File where
  "sampleFile = \<lparr>file_name = ''b.pdf'',
     file_content = PdfDocument [[Some ''p1''], [], [], [Some ''p4''], [], [], [Some ''p7'']],
     file_error = []\<rparr>"

definition sampleBody :: "string \<Rightarrow> bool \<Rightarrow> rawData" where
  "sampleBody t back =
     \<lparr>raw_title = Some t, raw_isBoilerplate = Some False, raw_isFrontMatter = Some False,
      raw_isBackMatter = Some back,
      raw_nuggets = Some [\<lparr>raw_id = ''n0'', raw_type = QUOTE, raw_content = ''X'', raw_source = None\<rparr>,
                          \<lparr>raw_id = ''n1'', raw_type = LEARNING, raw_content = ''Y'',
                             raw_source = Some ''A. Author''\<rparr>]\<rparr>"

definition sampleReply :: "string \<Rightarrow> reply" where
  "sampleReply t =
     Fulfilled \<lparr>usageMetadata = Some \<lparr>promptTokenCount = 100, candidatesTokenCount = 20\<rparr>,
                response_text = Some (JsonValue (sampleBody t False))\<rparr>"

definition backMatterReply :: reply where
  "backMatterReply =
     Fulfilled \<lparr>usageMetadata = Some \<lparr>promptTokenCount = 100, candidatesTokenCount = 20\<rparr>,
                response_text = Some (JsonValue (sampleBody ''Index'' True))\<rparr>"

definition unparsableReply :: reply where
  "unparsableReply =
     Fulfilled \<lparr>usageMetadata = Some \<lparr>promptTokenCount = 100, candidatesTokenCount = 0\<rparr>,
                response_text = Some SyntaxErr\<rparr>"

definition emptyReply :: reply where
  "emptyReply = Fulfilled \<lparr>usageMetadata = None, response_text = None\<rparr>"

text \<open>The first nugget of \<open>sampleReply\<close> as the scan of chapter 0 returns it.\<close>

definition sampleNugget :: BookNugget where
  "sampleNugget = \<lparr>nid = ''c0_n0'', ntype = QUOTE, content = ''X'', source = None,
     locationLabel = Some ''Pages 1-3'', sortIndex = 0, tags = None\<rparr>"

text \<open>The first nugget of \<open>sampleReply\<close> as the scan of chapter 1 returns it.\<close>

definition sampleNugget1 :: BookNugget where
  "sampleNugget1 = \<lparr>nid = ''c1_n0'', ntype = QUOTE, content = ''X'', source = None,
     locationLabel = Some ''Pages 4-6'', sortIndex = 0, tags = None\<rparr>"

section \<open>Properties of the extraction service\<close>

text \<open>
  C10. A segment that the service classifies as back matter while the back-matter
  filter is off, or as boilerplate front matter while the boilerplate filter is off,
  is returned with no nuggets, with the title of the response and with both
  classification flags of the response (as booleans). This holds for the scan with six
  parameters and for the one of \<open>services/geminiService.ts\<close>, which reads the front-matter
  flag from \<open>isFrontMatter\<close>.
\<close>

theorem skipped_segment_keeps_classification:
  assumes "parseBody r = Inr rawD"
  shows "(truthy (raw_isBackMatter rawD) \<and> \<not> analyzeBack
            \<or> truthy (raw_isBoilerplate rawD) \<and> \<not> analyzeFront \<longrightarrow>
          (\<exists>res. scanChapterForNuggets (Fulfilled r) txt idx label analyzeBack analyzeFront types = Inr res
             \<and> nuggets (data res) = [] \<and> title (data res) = raw_title rawD
             \<and> isBackMatter (data res) = Some (truthy (raw_isBackMatter rawD))
             \<and> isFrontMatter (data res) = Some (truthy (raw_isBoilerplate rawD))))
       \<and> (truthy (raw_isBackMatter rawD) \<and> \<not> analyzeBack
            \<or> truthy (raw_isFrontMatter rawD) \<and> \<not> analyzeFront \<longrightarrow>
          (\<exists>res. scanChapterForNuggets_services (Fulfilled r) txt idx label analyzeBack analyzeFront = Inr res
             \<and> nuggets (data res) = [] \<and> title (data res) = raw_title rawD
             \<and> isBackMatter (data res) = Some (truthy (raw_isBackMatter rawD))
             \<and> isFrontMatter (data res) = Some (truthy (raw_isFrontMatter rawD))))"
  using assms
  by (simp add: scanChapterForNuggets_def scanChapterForNuggets_services_def Let_def)

theorem skipped_segment_keeps_classification_witness:
  "parseBody \<lparr>usageMetadata = None, response_text = Some (JsonValue (sampleBody ''Index'' True))\<rparr>
     = Inr (sampleBody ''Index'' True)
   \<and> truthy (raw_isBackMatter (sampleBody ''Index'' True))
   \<and> (\<exists>res. scanChapterForNuggets
               (Fulfilled \<lparr>usageMetadata = None, response_text = Some (JsonValue (sampleBody ''Index'' True))\<rparr>)
               None 6 (Some ''Page 19'') False False [QUOTE] = Inr res
          \<and> nuggets (data res) = [] \<and> title (data res) = Some ''Index''
          \<and> isBackMatter (data res) = Some True \<and> isFrontMatter (data res) = Some False)
   \<and> (\<exists>res. scanChapterForNuggets_services
               (Fulfilled \<lparr>usageMetadata = None, response_text = Some (JsonValue (sampleBody ''Index'' True))\<rparr>)
               None 6 (Some ''Page 19'') False False = Inr res
          \<and> nuggets (data res) = [] \<and> title (data res) = Some ''Index''
          \<and> isBackMatter (data res) = Some True \<and> isFrontMatter (data res) = Some False)"
proof -
  have p: "parseBody \<lparr>usageMetadata = None, response_text = Some (JsonValue (sampleBody ''Index'' True))\<rparr>
             = Inr (sampleBody ''Index'' True)"
    by (simp add: parseBody_def)
  have t: "truthy (raw_isBackMatter (sampleBody ''Index'' True))"
    "\<not> truthy (raw_isBoilerplate (sampleBody ''Index'' True))"
    "\<not> truthy (raw_isFrontMatter (sampleBody ''Index'' True))"
    "raw_title (sampleBody ''Index'' True) = Some ''Index''"
    by (simp_all add: truthy_def sampleBody_def)
  from skipped_segment_keeps_classification
         [OF p, of False False None 6 "Some ''Page 19''" "[QUOTE]"] p t
  show ?thesis by simp
qed

text \<open>What the scan keeps of the raw nuggets.\<close>

lemma mkNugget_type: "ntype (mkNugget i l p) = raw_type (snd p)"
  by (cases p) (simp add: mkNugget_def)

lemma kept_types:
  "\<forall>n \<in> set (map (mkNugget idx label) (enumerate 0 (filter (\<lambda>n. raw_type n \<in> set types) ns))).
     ntype n \<in> set types"
proof
  fix n
  assume "n \<in> set (map (mkNugget idx label) (enumerate 0 (filter (\<lambda>n. raw_type n \<in> set types) ns)))"
  then obtain p where p: "p \<in> set (enumerate 0 (filter (\<lambda>n. raw_type n \<in> set types) ns))"
    and n: "n = mkNugget idx label p" by auto
  from p have "snd p \<in> snd ` set (enumerate 0 (filter (\<lambda>n. raw_type n \<in> set types) ns))"
    by (rule imageI)
  then have "snd p \<in> set (filter (\<lambda>n. raw_type n \<in> set types) ns)"
    by (simp only: set_map [symmetric] map_snd_enumerate)
  then show "ntype n \<in> set types" by (simp add: n mkNugget_type)
qed

lemma scan_nuggets:
  assumes "scanChapterForNuggets rep txt idx label analyzeBack analyzeFront types = Inr res"
  shows "\<exists>ns. nuggets (data res)
           = map (mkNugget idx label) (enumerate 0 (filter (\<lambda>n. raw_type n \<in> set types) ns))"
proof -
  have empty: "[] = map (mkNugget idx label) (enumerate 0 (filter (\<lambda>n. raw_type n \<in> set types) []))"
    by simp
  show ?thesis using assms
    by (auto simp: scanChapterForNuggets_def Let_def intro: exI [of _ "[]"]
             split: reply.splits sum.splits if_splits option.splits)
qed

lemma scan_types:
  assumes "scanChapterForNuggets rep txt idx label analyzeBack analyzeFront types = Inr res"
  shows "\<forall>n \<in> set (nuggets (data res)). ntype n \<in> set types"
  using scan_nuggets [OF assms] kept_types by metis

section \<open>Rounds of effects\<close>

lemma closureOf_eq_iff:
  "closureOf s = closureOf t \<longleftrightarrow>
     book s = book t \<and> analyzeBackMatter s = analyzeBackMatter t
       \<and> analyzeBoilerplate s = analyzeBoilerplate t \<and> selectedNuggetTypes s = selectedNuggetTypes t"
  by (auto simp: closureOf_def)

lemma runEffects_quiet:
  assumes "sameDeps p c"
  shows "runEffects False p c =
           (if noteList p \<noteq> noteList c \<or> stats p \<noteq> stats c then saveProgress c c else c)"
  using assms by (simp add: runEffects_def Let_def closureOf_eq_iff sameDeps_def)

lemma saveProgress_eq: "\<exists>st. saveProgress r s = s\<lparr>localStorage := st\<rparr>"
  by (cases "book r") (auto simp: saveProgress_def intro: exI [of _ "localStorage s"])

lemma sameDeps_storage [simp]: "sameDeps p (c\<lparr>localStorage := st\<rparr>) = sameDeps p c"
  "sameDeps (c\<lparr>localStorage := st\<rparr>) p = sameDeps c p"
  by (simp_all add: sameDeps_def)

lemma sameDeps_refl [simp]: "sameDeps c c"
  by (simp add: sameDeps_def)

lemma commit_quiet:
  assumes "sameDeps p c"
  shows "\<exists>st. commit False p c = c\<lparr>localStorage := st\<rparr>"
proof -
  obtain st where st: "saveProgress c c = c\<lparr>localStorage := st\<rparr>"
    using saveProgress_eq by blast
  have r1: "runEffects False p c = c \<or> runEffects False p c = c\<lparr>localStorage := st\<rparr>"
    using runEffects_quiet [OF assms] st by auto
  have "runEffects False c (c\<lparr>localStorage := st\<rparr>) = c\<lparr>localStorage := st\<rparr>"
    by (subst runEffects_quiet) simp_all
  moreover have "runEffects False c c = c"
    by (subst runEffects_quiet) simp_all
  moreover have "c = c\<lparr>localStorage := localStorage c\<rparr>" by simp
  ultimately show ?thesis using r1 unfolding commit_def by metis
qed

lemma settled_direct_deps: "sameDeps s (analyzeChapter_settled q rep (s\<lparr>inflight := xs\<rparr>))"
  by (simp add: analyzeChapter_settled_def sameDeps_def split: sum.splits)

lemma settled_prefetch_deps: "sameDeps s (prefetchNext_settled q rep (s\<lparr>inflight := xs\<rparr>))"
  by (simp add: prefetchNext_settled_def sameDeps_def split: sum.splits)

lemma step_Settle_Direct:
  assumes "k < length (inflight s)" "req_kind (inflight s ! k) = Direct"
  shows "\<exists>st. step (Settle k rep) s =
           (analyzeChapter_settled (inflight s ! k) rep (s\<lparr>inflight := removeAt k (inflight s)\<rparr>))
             \<lparr>localStorage := st\<rparr>"
  using assms commit_quiet [OF settled_direct_deps] by (simp add: Let_def)

lemma step_Settle_Prefetch:
  assumes "k < length (inflight s)" "req_kind (inflight s ! k) = Prefetch"
  shows "\<exists>st. step (Settle k rep) s =
           (prefetchNext_settled (inflight s ! k) rep (s\<lparr>inflight := removeAt k (inflight s)\<rparr>))
             \<lparr>localStorage := st\<rparr>"
  using assms commit_quiet [OF settled_prefetch_deps] by (simp add: Let_def)


section \<open>Responses of the service\<close>

text \<open>
  C1, as amended. A successful response of the direct-fetch path is committed to the
  displayed analysis whatever the currently selected index is: \<open>analyzeChapter\<close> does
  not compare the two. The response is cached under the index it was requested for, and
  the selected index stays as it is.
\<close>

theorem direct_response_always_displayed:
  assumes "k < length (inflight s)" and "req_kind (inflight s ! k) = Direct"
      and "scanFor (inflight s ! k) rep = Inr result"
  shows "currentChapterData (step (Settle k rep) s) = Some (data result)
         \<and> cachedChapters (step (Settle k rep) s) (req_index (inflight s ! k)) = Some (data result)
         \<and> currentChapterIndex (step (Settle k rep) s) = currentChapterIndex s"
proof -
  from step_Settle_Direct [OF assms(1,2), of rep] obtain st where
    "step (Settle k rep) s =
       (analyzeChapter_settled (inflight s ! k) rep (s\<lparr>inflight := removeAt k (inflight s)\<rparr>))
         \<lparr>localStorage := st\<rparr>" ..
  then show ?thesis using assms(3) by (simp add: analyzeChapter_settled_def)
qed

theorem direct_response_always_displayed_witness:
  "0 < length (inflight (run [Upload sampleFile, Jump 1] (initialState Map.empty)))
   \<and> req_kind (inflight (run [Upload sampleFile, Jump 1] (initialState Map.empty)) ! 0) = Direct
   \<and> req_index (inflight (run [Upload sampleFile, Jump 1] (initialState Map.empty)) ! 0) = 0
   \<and> currentChapterIndex (run [Upload sampleFile, Jump 1] (initialState Map.empty)) = 1
   \<and> (\<exists>result. scanFor (inflight (run [Upload sampleFile, Jump 1] (initialState Map.empty)) ! 0)
                      (sampleReply ''Zero'') = Inr result
         \<and> currentChapterData (step (Settle 0 (sampleReply ''Zero''))
               (run [Upload sampleFile, Jump 1] (initialState Map.empty))) = Some (data result)
         \<and> currentChapterIndex (step (Settle 0 (sampleReply ''Zero''))
               (run [Upload sampleFile, Jump 1] (initialState Map.empty))) = 1)"
proof -
  let ?s = "run [Upload sampleFile, Jump 1] (initialState Map.empty)"
  have h1: "0 < length (inflight ?s)" by code_simp
  have h2: "req_kind (inflight ?s ! 0) = Direct" by code_simp
  have h3: "req_index (inflight ?s ! 0) = 0" by code_simp
  have h4: "currentChapterIndex ?s = 1" by code_simp
  obtain result where r: "scanFor (inflight ?s ! 0) (sampleReply ''Zero'') = Inr result"
  proof -
    have "\<not> isl (scanFor (inflight ?s ! 0) (sampleReply ''Zero''))" by code_simp
    then show ?thesis using that by (cases "scanFor (inflight ?s ! 0) (sampleReply ''Zero'')") auto
  qed
  from direct_response_always_displayed [OF h1 h2 r] h1 h2 h3 h4 r
  show ?thesis by auto
qed

text \<open>
  C1, the counterexample. The book is opened, which starts the analysis of chapter 0;
  the user moves to chapter 1 while it runs; then the response for chapter 0 arrives. It
  becomes the displayed analysis although chapter 1 is selected, and nothing has been
  fetched for chapter 1.
\<close>

theorem stale_response_displayed_counterexample:
  "currentChapterIndex (run [Upload sampleFile, Jump 1, Settle 0 (sampleReply ''Zero'')]
      (initialState Map.empty)) = 1
   \<and> map_option (map nid \<circ> nuggets)
        (currentChapterData (run [Upload sampleFile, Jump 1, Settle 0 (sampleReply ''Zero'')]
           (initialState Map.empty))) = Some [''c0_n0'', ''c0_n1'']
   \<and> currentChapterData (run [Upload sampleFile, Jump 1, Settle 0 (sampleReply ''Zero'')]
        (initialState Map.empty))
       = cachedChapters (run [Upload sampleFile, Jump 1, Settle 0 (sampleReply ''Zero'')]
           (initialState Map.empty)) 0
   \<and> cachedChapters (run [Upload sampleFile, Jump 1, Settle 0 (sampleReply ''Zero'')]
        (initialState Map.empty)) 1 = None
   \<and> inflight (run [Upload sampleFile, Jump 1, Settle 0 (sampleReply ''Zero'')]
        (initialState Map.empty)) = []"
  by code_simp

lemma scanFor_types:
  assumes "scanFor q rep = Inr result"
  shows "\<forall>n \<in> set (nuggets (data result)). ntype n \<in> set (cl_types (req_closure q))"
  using assms unfolding scanFor_def Let_def by (rule scan_types)

lemma step_Settle_cases:
  assumes "k < length (inflight s)"
  shows "\<exists>st. step (Settle k rep) s =
           (case req_kind (inflight s ! k) of
              Direct \<Rightarrow> analyzeChapter_settled (inflight s ! k) rep (s\<lparr>inflight := removeAt k (inflight s)\<rparr>)
            | Prefetch \<Rightarrow> prefetchNext_settled (inflight s ! k) rep (s\<lparr>inflight := removeAt k (inflight s)\<rparr>))
             \<lparr>localStorage := st\<rparr>"
  using step_Settle_Direct [OF assms, of rep] step_Settle_Prefetch [OF assms, of rep]
  by (cases "req_kind (inflight s ! k)") simp_all

text \<open>
  What the scan with six parameters does achieve. Whatever call settles, on either
  path: when the scan succeeds, its result is what the cache then holds for the
  requested index, and every nugget of it has one of the types in the list that the
  request was made with.
\<close>

lemma settled_nuggets_have_requested_types:
  assumes "k < length (inflight s)" and "scanFor (inflight s ! k) rep = Inr result"
  shows "cachedChapters (step (Settle k rep) s) (req_index (inflight s ! k)) = Some (data result)
         \<and> (\<forall>n \<in> set (nuggets (data result)).
               ntype n \<in> set (cl_types (req_closure (inflight s ! k))))"
proof -
  from step_Settle_cases [OF assms(1), of rep] obtain st where
    "step (Settle k rep) s =
           (case req_kind (inflight s ! k) of
              Direct \<Rightarrow> analyzeChapter_settled (inflight s ! k) rep (s\<lparr>inflight := removeAt k (inflight s)\<rparr>)
            | Prefetch \<Rightarrow> prefetchNext_settled (inflight s ! k) rep (s\<lparr>inflight := removeAt k (inflight s)\<rparr>))
             \<lparr>localStorage := st\<rparr>" ..
  then have "cachedChapters (step (Settle k rep) s) (req_index (inflight s ! k)) = Some (data result)"
    using assms(2)
    by (cases "req_kind (inflight s ! k)")
       (simp_all add: analyzeChapter_settled_def prefetchNext_settled_def)
  with scanFor_types [OF assms(2)] show ?thesis by simp
qed

text \<open>
  C5. Chapter 0 has been analysed with all three types selected. The user deselects
  the quotes: the selection becomes learnings and insights, the cache is cleared and
  chapter 0 is requested again, but by the \<open>analyzeChapter\<close> of the render in which
  the button was pressed, hence with the former list of all three types. The service
  answers with a quote and a learning; the scan drops nothing, and the quote is cached
  and displayed while quotes are not selected. No further request follows.
\<close>

theorem deselected_type_is_cached:
  "selectedNuggetTypes (run [Upload sampleFile, Settle 0 (sampleReply ''Zero''), ToggleType QUOTE]
        (initialState Map.empty)) = [LEARNING, INSIGHT]
   \<and> map (cl_types \<circ> req_closure) (inflight (run [Upload sampleFile, Settle 0 (sampleReply ''Zero''), ToggleType QUOTE]
        (initialState Map.empty))) = [[QUOTE, LEARNING, INSIGHT]]
   \<and> selectedNuggetTypes (run [Upload sampleFile, Settle 0 (sampleReply ''Zero''), ToggleType QUOTE,
        Settle 0 (sampleReply ''Zero'')] (initialState Map.empty)) = [LEARNING, INSIGHT]
   \<and> map_option (map ntype \<circ> nuggets) (cachedChapters (run [Upload sampleFile, Settle 0 (sampleReply ''Zero''), ToggleType QUOTE,
        Settle 0 (sampleReply ''Zero'')] (initialState Map.empty)) 0) = Some [QUOTE, LEARNING]
   \<and> currentChapterData (run [Upload sampleFile, Settle 0 (sampleReply ''Zero''), ToggleType QUOTE,
        Settle 0 (sampleReply ''Zero'')] (initialState Map.empty)) = cachedChapters (run [Upload sampleFile, Settle 0 (sampleReply ''Zero''), ToggleType QUOTE,
        Settle 0 (sampleReply ''Zero'')] (initialState Map.empty)) 0
   \<and> inflight (run [Upload sampleFile, Settle 0 (sampleReply ''Zero''), ToggleType QUOTE,
        Settle 0 (sampleReply ''Zero'')] (initialState Map.empty)) = []"
  by code_simp

lemma scan_unparsable:
  assumes "response_text r = Some SyntaxErr"
  shows "scanChapterForNuggets (Fulfilled r) txt idx label b f types = Inl SyntaxError"
    and "scanChapterForNuggets_services (Fulfilled r) txt idx label b f = Inl SyntaxError"
  using assms
  by (simp_all add: scanChapterForNuggets_def scanChapterForNuggets_services_def parseBody_def Let_def)

text \<open>
  C6, as amended. A response whose body is not valid JSON makes the scan raise, in both
  variants. The caller catches the exception: the cache, the usage statistics and the
  displayed analysis stay as they were; the direct path ends the analysing state with
  its error message, the prefetch path only releases its flag.
\<close>

theorem unparsable_body_fails_the_call:
  assumes "k < length (inflight s)" and "response_text r = Some SyntaxErr"
  shows "scanFor (inflight s ! k) (Fulfilled r) = Inl SyntaxError
         \<and> scanChapterForNuggets_services (Fulfilled r) txt idx label b f = Inl SyntaxError
         \<and> cachedChapters (step (Settle k (Fulfilled r)) s) = cachedChapters s
         \<and> stats (step (Settle k (Fulfilled r)) s) = stats s
         \<and> currentChapterData (step (Settle k (Fulfilled r)) s) = currentChapterData s
         \<and> (case req_kind (inflight s ! k) of
               Direct \<Rightarrow>
                 error (step (Settle k (Fulfilled r)) s)
                   = Some ''Analysis failed. Please check your internet connection and API key.''
                 \<and> isAnalyzing (step (Settle k (Fulfilled r)) s) = False
             | Prefetch \<Rightarrow>
                 error (step (Settle k (Fulfilled r)) s) = error s
                 \<and> isPrefetching (step (Settle k (Fulfilled r)) s) = False)"
proof -
  have sc: "scanFor (inflight s ! k) (Fulfilled r) = Inl SyntaxError"
    unfolding scanFor_def Let_def by (rule scan_unparsable(1) [OF assms(2)])
  from step_Settle_cases [OF assms(1), of "Fulfilled r"] obtain st where
    "step (Settle k (Fulfilled r)) s =
           (case req_kind (inflight s ! k) of
              Direct \<Rightarrow> analyzeChapter_settled (inflight s ! k) (Fulfilled r) (s\<lparr>inflight := removeAt k (inflight s)\<rparr>)
            | Prefetch \<Rightarrow> prefetchNext_settled (inflight s ! k) (Fulfilled r) (s\<lparr>inflight := removeAt k (inflight s)\<rparr>))
             \<lparr>localStorage := st\<rparr>" ..
  then show ?thesis using sc scan_unparsable(2) [OF assms(2)]
    by (cases "req_kind (inflight s ! k)")
       (simp_all add: analyzeChapter_settled_def prefetchNext_settled_def)
qed

theorem unparsable_body_fails_the_call_witness:
  "0 < length (inflight (run [Upload sampleFile] (initialState Map.empty)))
   \<and> req_kind (inflight (run [Upload sampleFile] (initialState Map.empty)) ! 0) = Direct
   \<and> scanFor (inflight (run [Upload sampleFile] (initialState Map.empty)) ! 0)
        (Fulfilled \<lparr>usageMetadata = Some \<lparr>promptTokenCount = 100, candidatesTokenCount = 0\<rparr>,
                    response_text = Some SyntaxErr\<rparr>) = Inl SyntaxError
   \<and> error (step (Settle 0 (Fulfilled \<lparr>usageMetadata = Some \<lparr>promptTokenCount = 100, candidatesTokenCount = 0\<rparr>,
                    response_text = Some SyntaxErr\<rparr>)) (run [Upload sampleFile] (initialState Map.empty)))
       = Some ''Analysis failed. Please check your internet connection and API key.''
   \<and> isAnalyzing (step (Settle 0 (Fulfilled \<lparr>usageMetadata = Some \<lparr>promptTokenCount = 100, candidatesTokenCount = 0\<rparr>,
                    response_text = Some SyntaxErr\<rparr>)) (run [Upload sampleFile] (initialState Map.empty)))
       = False"
proof -
  let ?s = "run [Upload sampleFile] (initialState Map.empty)"
  let ?r = "\<lparr>usageMetadata = Some \<lparr>promptTokenCount = 100, candidatesTokenCount = 0\<rparr>,
             response_text = Some SyntaxErr\<rparr>"
  have h1: "0 < length (inflight ?s)" by code_simp
  have h2: "response_text ?r = Some SyntaxErr" by simp
  have h3: "req_kind (inflight ?s ! 0) = Direct" by code_simp
  from unparsable_body_fails_the_call [OF h1 h2, of None 0 None False False] h1 h3
  show ?thesis by simp
qed

text \<open>
  C6, the counterexample. The first analysis after opening the book is answered with
  a body that is not JSON: the scan raises a syntax error, the navigation ends with the
  error message and the chapter is not cached. An answer without any body fares no
  better: the fallback \<open>"{}"\<close> parses to an object without \<open>nuggets\<close>, and reading
  the nuggets raises a type error.
\<close>

theorem unparsable_response_counterexample:
  "scanChapterForNuggets unparsableReply (Some ''p1'') 0 (Some ''Pages 1-3'') False False
      [QUOTE, LEARNING, INSIGHT] = Inl SyntaxError
   \<and> error (run [Upload sampleFile, Settle 0 unparsableReply] (initialState Map.empty))
       = Some ''Analysis failed. Please check your internet connection and API key.''
   \<and> cachedChapters (run [Upload sampleFile, Settle 0 unparsableReply] (initialState Map.empty)) 0 = None
   \<and> scanChapterForNuggets emptyReply (Some ''p1'') 0 (Some ''Pages 1-3'') False False
      [QUOTE, LEARNING, INSIGHT] = Inl TypeError
   \<and> error (run [Upload sampleFile, Settle 0 emptyReply] (initialState Map.empty))
       = Some ''Analysis failed. Please check your internet connection and API key.''"
  by code_simp

section \<open>Parsing an upload\<close>

lemma div3_step: "i \<le> n \<Longrightarrow> (n + 3 - i) div 3 = Suc ((n + 3 - (i + 3)) div 3)" for i n :: nat
proof -
  assume "i \<le> n"
  then obtain k where "n = i + k" using le_Suc_ex by blast
  then show ?thesis by simp
qed

lemma pdfLoop_lengths:
  "length (fst (pdfLoop pages i acc)) = length (fst acc) + (length pages + 3 - i) div 3 \<and>
   length (snd (pdfLoop pages i acc)) = length (snd acc) + (length pages + 3 - i) div 3"
proof (induction pages i acc rule: pdfLoop.induct)
  case (1 pages i acc)
  show ?case
  proof (cases "i \<le> length pages")
    case True
    have step: "pdfLoop pages i acc = pdfLoop pages (i + 3)
          (fst acc @ [pdfChunkText pages i (min (i + 2) (length pages))],
           snd acc @ [pdfLocation i (min (i + 2) (length pages))])"
      using True by (subst pdfLoop.simps) simp
    show ?thesis
      unfolding step using "1.IH" [OF True] by (simp only: div3_step [OF True] fst_conv snd_conv length_append list.size) simp
  next
    case False
    then show ?thesis by (subst (1 2) pdfLoop.simps) simp
  qed
qed

lemma epubLoop_lengths:
  "length (fst (epubLoop es c acc)) =
     length (fst acc) + length (filter (\<lambda>e. (endsWith (fst e) ''.xhtml'' \<or> endsWith (fst e) ''.html'')
                                          \<and> length (trim (snd e)) > 100) es) \<and>
   length (snd (epubLoop es c acc)) =
     length (snd acc) + length (filter (\<lambda>e. (endsWith (fst e) ''.xhtml'' \<or> endsWith (fst e) ''.html'')
                                          \<and> length (trim (snd e)) > 100) es)"
  by (induction es c acc rule: epubLoop.induct) auto

lemma parsePdf_lengths:
  assumes "parsePdf f = Inr r"
  shows "length (chunks r) = length (locations r)"
    and "\<exists>pages. file_content f = PdfDocument pages \<and> length (chunks r) = (length pages + 2) div 3"
  using assms pdfLoop_lengths [of _ 1 "([], [])"]
  by (auto simp: parsePdf_def Let_def split: fileContent.splits)

lemma parseEpub_lengths:
  assumes "parseEpub f = Inr r"
  shows "length (chunks r) = length (locations r)"
    and "\<exists>es. file_content f = ZipArchive es \<and>
           length (chunks r) = length (filter (\<lambda>e. (endsWith (fst e) ''.xhtml'' \<or> endsWith (fst e) ''.html'')
                                          \<and> length (trim (snd e)) > 100) es)"
  using assms epubLoop_lengths [of _ 0 "([], [])"]
  by (auto simp: parseEpub_def Let_def filter_sort split: fileContent.splits)

text \<open>
  C9, as amended. An upload that parses yields as many segments as locations. A PDF of
  \<open>n\<close> pages yields \<open>(n + 2) div 3\<close> segments; an EPUB yields one segment for each
  entry whose name ends in \<open>.xhtml\<close> or \<open>.html\<close> and whose trimmed text is longer
  than 100 characters, which may be none.
\<close>

theorem upload_segments_and_locations:
  assumes "parseUpload f = Inr r"
  shows "length (chunks r) = length (locations r) \<and>
         (case file_content f of
            PdfDocument pages \<Rightarrow> length (chunks r) = (length pages + 2) div 3
          | ZipArchive es \<Rightarrow>
              length (chunks r) =
                length (filter (\<lambda>e. (endsWith (fst e) ''.xhtml'' \<or> endsWith (fst e) ''.html'')
                                      \<and> length (trim (snd e)) > 100) es)
          | Unreadable \<Rightarrow> False)"
proof -
  consider (pdf) "parsePdf f = Inr r" | (epub) "parseEpub f = Inr r"
    using assms by (auto simp: parseUpload_def split: if_splits)
  then show ?thesis
  proof cases
    case pdf
    from parsePdf_lengths [OF pdf] show ?thesis by auto
  next
    case epub
    from parseEpub_lengths [OF epub] show ?thesis by auto
  qed
qed



theorem upload_segments_and_locations_witness:
  "parseUpload \<lparr>file_name = ''book.pdf'', file_content = PdfDocument [[Some ''a''], [], [], [Some ''b'']], file_error = []\<rparr>
     = Inr \<lparr>parsed_title = ''book'', chunks = [[CHR ''a'', CHR 0x0A, CHR 0x0A, CHR 0x0A, CHR 0x0A, CHR 0x0A, CHR 0x0A], [CHR ''b'', CHR 0x0A, CHR 0x0A]],
             locations = [''Pages 1-3'', ''Page 4'']\<rparr>
   \<and> length [[CHR ''a'', CHR 0x0A, CHR 0x0A, CHR 0x0A, CHR 0x0A, CHR 0x0A, CHR 0x0A], [CHR ''b'', CHR 0x0A, CHR 0x0A]] = length [''Pages 1-3'', ''Page 4'']"
proof -
  have h: "parseUpload \<lparr>file_name = ''book.pdf'', file_content = PdfDocument [[Some ''a''], [], [], [Some ''b'']], file_error = []\<rparr>
     = Inr \<lparr>parsed_title = ''book'', chunks = [[CHR ''a'', CHR 0x0A, CHR 0x0A, CHR 0x0A, CHR 0x0A, CHR 0x0A, CHR 0x0A], [CHR ''b'', CHR 0x0A, CHR 0x0A]],
             locations = [''Pages 1-3'', ''Page 4'']\<rparr>"
    by code_simp
  from upload_segments_and_locations [OF h] h show ?thesis by simp
qed

text \<open>
  C9, the counterexample. An EPUB whose only document is short parses without error to
  a book of no segments.
\<close>

theorem empty_epub_counterexample:
  "parseUpload \<lparr>file_name = ''book.epub'',
       file_content = ZipArchive [(''mimetype'', ''application/epub+zip''), (''ch1.xhtml'', ''Too short.'')],
       file_error = []\<rparr>
     = Inr \<lparr>parsed_title = ''book'', chunks = [], locations = []\<rparr>"
  by code_simp


section \<open>Toggling a note twice\<close>

lemma compareNotes_flip: "compareNotes b a < 0 \<longleftrightarrow> \<not> compareNotes a b \<le> 0"
  by (auto simp: compareNotes_def)

lemma insertBy_last: "\<forall>y \<in> set ys. \<not> cmp x y < 0 \<Longrightarrow> insertBy cmp x ys = ys @ [x]"
  by (induction ys) auto

lemma sortBy_snoc: "sortBy cmp (xs @ [x]) = insertBy cmp x (sortBy cmp xs)"
  by (simp add: sortBy_def)

lemma sortBy_sorted: "sorted_wrt (\<lambda>a b. \<not> cmp b a < 0) xs \<Longrightarrow> sortBy cmp xs = xs"
proof (induction xs rule: rev_induct)
  case Nil
  show ?case by (simp add: sortBy_def)
next
  case (snoc x xs)
  from snoc.prems have sx: "sorted_wrt (\<lambda>a b. \<not> cmp b a < 0) xs" and lx: "\<forall>y \<in> set xs. \<not> cmp x y < 0"
    by (auto simp: sorted_wrt_append)
  show ?case using snoc.IH [OF sx] insertBy_last [of xs cmp x, OF lx] by (simp add: sortBy_snoc)
qed

lemma sortBy_ledger: "ledgerSorted ns \<Longrightarrow> sortBy compareNotes ns = ns"
  by (rule sortBy_sorted) (simp add: ledgerSorted_def compareNotes_flip)

lemma filter_insertBy_new:
  "\<not> P x \<Longrightarrow> \<forall>y \<in> set ys. P y \<Longrightarrow> filter P (insertBy cmp x ys) = ys"
  by (induction ys) auto

lemma find_None_all: "find P xs = None \<longleftrightarrow> (\<forall>x \<in> set xs. \<not> P x)"
  by (induction xs) auto

lemma find_insertBy_new: "P x \<Longrightarrow> find P (insertBy cmp x ys) \<noteq> None"
  by (induction ys) auto

lemma toggleNote_twice:
  assumes absent: "find (\<lambda>n. nid n = nid nugget) (noteList s) = None"
      and sorted: "ledgerSorted (noteList s)"
  shows "noteList (toggleNote nugget (toggleNote nugget s)) = noteList s"
proof -
  define newNote where "newNote =
     \<lparr>nid = nid nugget, ntype = ntype nugget, content = content nugget,
      source = source nugget, locationLabel = locationLabel nugget,
      sortIndex = sortIndex nugget,
      tags = Some (case tags nugget of None \<Rightarrow> [] | Some t \<Rightarrow> t),
      chapterTitle = currentTitle s, chapterIndex = currentChapterIndex s\<rparr>"
  have first: "noteList (toggleNote nugget s) = insertBy compareNotes newNote (noteList s)"
    using absent sortBy_ledger [OF sorted]
    by (simp add: toggleNote_def Let_def newNote_def sortBy_snoc)
  have idn: "nid newNote = nid nugget" by (simp add: newNote_def)
  have present: "find (\<lambda>n. nid n = nid nugget) (noteList (toggleNote nugget s)) \<noteq> None"
    unfolding first by (rule find_insertBy_new) (simp add: idn)
  have others: "\<forall>y \<in> set (noteList s). nid y \<noteq> nid nugget"
    using absent by (simp add: find_None_all)
  have "noteList (toggleNote nugget (toggleNote nugget s))
          = filter (\<lambda>n. nid n \<noteq> nid nugget) (noteList (toggleNote nugget s))"
    using present by (auto simp: toggleNote_def split: option.splits)
  also have "\<dots> = noteList s"
    unfolding first using others by (intro filter_insertBy_new) (simp_all add: idn)
  finally show ?thesis .
qed


lemma toggleNote_storage:
  "toggleNote nugget (s\<lparr>localStorage := st\<rparr>) = (toggleNote nugget s)\<lparr>localStorage := st\<rparr>"
  by (simp add: toggleNote_def currentTitle_def Let_def split: option.splits)

lemma toggleNote_deps: "sameDeps s (toggleNote nugget s)"
  by (simp add: toggleNote_def sameDeps_def Let_def split: option.splits)

lemma step_Toggle: "\<exists>st. step (Toggle nugget) s = (toggleNote nugget s)\<lparr>localStorage := st\<rparr>"
  using commit_quiet [OF toggleNote_deps] by simp

text \<open>
  Every ledger that the application builds is in order, provided the snapshots it
  finds in \<open>localStorage\<close> are.
\<close>

lemma compareNotes_total: "\<not> compareNotes x y < 0 \<Longrightarrow> compareNotes y x \<le> 0"
  by (auto simp: compareNotes_def split: if_splits)

lemma compareNotes_less_le: "compareNotes x y < 0 \<Longrightarrow> compareNotes x y \<le> 0"
  by simp

lemma compareNotes_trans:
  "compareNotes x y \<le> 0 \<Longrightarrow> compareNotes y z \<le> 0 \<Longrightarrow> compareNotes x z \<le> 0"
  by (auto simp: compareNotes_def split: if_splits)

lemma set_insertBy: "set (insertBy cmp x ys) = insert x (set ys)"
  by (induction ys) auto

lemma insertBy_ledgerSorted:
  "ledgerSorted ys \<Longrightarrow> ledgerSorted (insertBy compareNotes x ys)"
proof (induction ys)
  case Nil
  show ?case by (simp add: ledgerSorted_def)
next
  case (Cons y ys)
  from Cons.prems have tail: "ledgerSorted ys" and head: "\<forall>z \<in> set ys. compareNotes y z \<le> 0"
    by (simp_all add: ledgerSorted_def)
  show ?case
  proof (cases "compareNotes x y < 0")
    case True
    then have "\<forall>z \<in> set (y # ys). compareNotes x z \<le> 0"
      using head compareNotes_trans [of x y] by auto
    with True Cons.prems show ?thesis by (simp add: ledgerSorted_def)
  next
    case False
    then have "compareNotes y x \<le> 0" by (rule compareNotes_total)
    with head have "\<forall>z \<in> set (insertBy compareNotes x ys). compareNotes y z \<le> 0"
      by (simp add: set_insertBy)
    with False Cons.IH [OF tail] show ?thesis by (simp add: ledgerSorted_def)
  qed
qed

lemma filter_ledgerSorted: "ledgerSorted ys \<Longrightarrow> ledgerSorted (filter P ys)"
  unfolding ledgerSorted_def by (rule sorted_wrt_filter)

lemma retag_ledgerSorted:
  "ledgerSorted ys \<Longrightarrow>
   ledgerSorted (map (\<lambda>n. if nid n = i then n\<lparr>tags := Some tgs\<rparr> else n) ys)"
proof -
  have "compareNotes (if nid a = i then a\<lparr>tags := Some tgs\<rparr> else a)
          (if nid b = i then b\<lparr>tags := Some tgs\<rparr> else b) = compareNotes a b" for a b
    by (simp add: compareNotes_def)
  then show "ledgerSorted ys \<Longrightarrow> ?thesis"
    by (simp add: ledgerSorted_def sorted_wrt_map)
qed

lemma toggleNote_ledgerSorted:
  assumes "ledgerSorted (noteList s)"
  shows "ledgerSorted (noteList (toggleNote nugget s))"
  using assms
  by (auto simp: toggleNote_def Let_def sortBy_snoc sortBy_ledger
           intro: filter_ledgerSorted insertBy_ledgerSorted split: option.splits)

lemma storeSorted_cong:
  "noteList t = noteList s \<Longrightarrow> localStorage t = localStorage s \<Longrightarrow> storeSorted s \<Longrightarrow> storeSorted t"
  by (simp add: storeSorted_def)

lemma effects_storeSorted:
  "storeSorted r \<Longrightarrow> storeSorted s \<Longrightarrow> storeSorted (loadProgress r s)"
  "storeSorted r \<Longrightarrow> storeSorted s \<Longrightarrow> storeSorted (saveProgress r s)"
  "storeSorted s \<Longrightarrow> storeSorted (analyzeChapter cl i s)"
  "storeSorted s \<Longrightarrow> storeSorted (analyzeCurrent r s)"
  by (auto simp: storeSorted_def loadProgress_def saveProgress_def analyzeChapter_def
        analyzeCurrent_def split: option.splits)

lemma runEffects_storeSorted: "storeSorted c \<Longrightarrow> storeSorted (runEffects r p c)"
  by (simp add: runEffects_def Let_def effects_storeSorted)

lemma runEffects_storeSorted2:
  "storeSorted c \<Longrightarrow> storeSorted s \<Longrightarrow> storeSorted (runEffects False c s)"
  by (simp add: runEffects_def Let_def effects_storeSorted)

lemma commit_storeSorted: "storeSorted c \<Longrightarrow> storeSorted (commit r p c)"
  unfolding commit_def by (intro runEffects_storeSorted2 runEffects_storeSorted)

lemma handlers_storeSorted:
  assumes "storeSorted s"
  shows "storeSorted (handleFileUpload f s)" "storeSorted (jumpToChapter i s)"
    "storeSorted (toggleNuggetTypePreference t s)" "storeSorted (toggleAnalyzeBoilerplate s)"
    "storeSorted (toggleAnalyzeBackMatter s)" "storeSorted (reset s)"
    "storeSorted (downloadNotes c s)" "storeSorted (prefetchNext cl i (s\<lparr>timers := ts\<rparr>))"
    "storeSorted (analyzeChapter_settled q rep (s\<lparr>inflight := qs\<rparr>))"
    "storeSorted (prefetchNext_settled q rep (s\<lparr>inflight := qs\<rparr>))"
  using assms
  by (auto simp: storeSorted_def handleFileUpload_def jumpToChapter_def
        toggleNuggetTypePreference_def analyzeChapter_def toggleAnalyzeBoilerplate_def
        toggleAnalyzeBackMatter_def reset_def downloadNotes_def prefetchNext_def
        analyzeChapter_settled_def prefetchNext_settled_def ledgerSorted_def Let_def
        split: option.splits sum.splits if_splits)

lemma toggleNote_storeSorted: "storeSorted s \<Longrightarrow> storeSorted (toggleNote nugget s)"
proof -
  assume s: "storeSorted s"
  have "localStorage (toggleNote nugget s) = localStorage s"
    by (simp add: toggleNote_def Let_def split: option.splits)
  with s toggleNote_ledgerSorted [of s nugget] show ?thesis
    by (simp add: storeSorted_def)
qed

lemma updateNuggetTags_storeSorted:
  "storeSorted s \<Longrightarrow> storeSorted (updateNuggetTags i tgs s)"
  using retag_ledgerSorted [of "noteList s" i tgs]
  by (simp add: storeSorted_def updateNuggetTags_def Let_def split: option.splits)

lemma step_storeSorted:
  assumes "storeSorted s"
  shows "storeSorted (step ev s)"
proof (cases ev)
  case (TimerFires k)
  show ?thesis
  proof (cases "k < length (timers s)")
    case True
    obtain index cl where "timers s ! k = (index, cl)" by (cases "timers s ! k")
    with True TimerFires show ?thesis
      by (simp add: commit_storeSorted handlers_storeSorted(8) [OF assms])
  next
    case False
    with TimerFires assms show ?thesis by simp
  qed
next
  case (Settle k rep)
  show ?thesis
  proof (cases "k < length (inflight s)")
    case True
    with Settle show ?thesis
      by (cases "req_kind (inflight s ! k)")
         (simp_all add: Let_def commit_storeSorted handlers_storeSorted(9,10) [OF assms])
  next
    case False
    with Settle assms show ?thesis by simp
  qed
qed (use assms in \<open>auto intro!: commit_storeSorted handlers_storeSorted toggleNote_storeSorted
        updateNuggetTags_storeSorted split: option.splits\<close>)

lemma run_storeSorted: "storeSorted s \<Longrightarrow> storeSorted (run evs s)"
  unfolding run_def by (induction evs arbitrary: s) (simp_all add: step_storeSorted)

lemma reachable_ledgerSorted: "ledgerSorted (noteList (run evs (initialState Map.empty)))"
proof -
  have "storeSorted (initialState Map.empty)"
    by (simp add: storeSorted_def initialState_def ledgerSorted_def)
  then have "storeSorted (run evs (initialState Map.empty))" by (rule run_storeSorted)
  then show ?thesis by (simp add: storeSorted_def)
qed

text \<open>
  C8, as amended. On a ledger that is in the order of \<open>(chapterIndex, sortIndex)\<close>,
  as every ledger is that the application builds from an empty store, toggling twice a
  nugget whose id is not selected gives back the ledger as it was, order included: the
  first toggle inserts the new note, the second removes it.
\<close>

theorem toggling_twice_restores_ledger:
  assumes "find (\<lambda>n. nid n = nid nugget) (noteList s) = None" and "ledgerSorted (noteList s)"
  shows "noteList (step (Toggle nugget) (step (Toggle nugget) s)) = noteList s"
proof -
  obtain st where 1: "step (Toggle nugget) s = (toggleNote nugget s)\<lparr>localStorage := st\<rparr>"
    using step_Toggle by blast
  obtain st' where 2: "step (Toggle nugget) ((toggleNote nugget s)\<lparr>localStorage := st\<rparr>)
      = (toggleNote nugget ((toggleNote nugget s)\<lparr>localStorage := st\<rparr>))\<lparr>localStorage := st'\<rparr>"
    using step_Toggle by blast
  show ?thesis
    unfolding 1 2 by (simp add: toggleNote_storage toggleNote_twice [OF assms])
qed

theorem toggling_twice_restores_ledger_witness:
  "find (\<lambda>n. nid n = nid sampleNugget) (noteList (run [Upload sampleFile, Settle 0 (sampleReply ''Zero''), Jump 1, Settle 0 (sampleReply ''One''),
        Toggle sampleNugget1, Jump 0] (initialState Map.empty))) = None
   \<and> ledgerSorted (noteList (run [Upload sampleFile, Settle 0 (sampleReply ''Zero''), Jump 1, Settle 0 (sampleReply ''One''),
        Toggle sampleNugget1, Jump 0] (initialState Map.empty)))
   \<and> map_option (hd \<circ> nuggets) (currentChapterData (run [Upload sampleFile, Settle 0 (sampleReply ''Zero''), Jump 1, Settle 0 (sampleReply ''One''),
        Toggle sampleNugget1, Jump 0] (initialState Map.empty))) = Some sampleNugget
   \<and> map nid (noteList (run [Upload sampleFile, Settle 0 (sampleReply ''Zero''), Jump 1, Settle 0 (sampleReply ''One''),
        Toggle sampleNugget1, Jump 0] (initialState Map.empty))) = [''c1_n0'']
   \<and> map nid (noteList (step (Toggle sampleNugget) (run [Upload sampleFile, Settle 0 (sampleReply ''Zero''), Jump 1, Settle 0 (sampleReply ''One''),
        Toggle sampleNugget1, Jump 0] (initialState Map.empty)))) = [''c0_n0'', ''c1_n0'']
   \<and> noteList (step (Toggle sampleNugget) (step (Toggle sampleNugget) (run [Upload sampleFile, Settle 0 (sampleReply ''Zero''), Jump 1, Settle 0 (sampleReply ''One''),
        Toggle sampleNugget1, Jump 0] (initialState Map.empty))))
       = noteList (run [Upload sampleFile, Settle 0 (sampleReply ''Zero''), Jump 1, Settle 0 (sampleReply ''One''),
        Toggle sampleNugget1, Jump 0] (initialState Map.empty))"
proof -
  let ?s = "run [Upload sampleFile, Settle 0 (sampleReply ''Zero''), Jump 1, Settle 0 (sampleReply ''One''),
        Toggle sampleNugget1, Jump 0] (initialState Map.empty)"
  have h1: "find (\<lambda>n. nid n = nid sampleNugget) (noteList ?s) = None" by code_simp
  have h2: "ledgerSorted (noteList ?s)" by code_simp
  have h3: "map nid (noteList ?s) = [''c1_n0'']" by code_simp
  have h4: "map nid (noteList (step (Toggle sampleNugget) ?s)) = [''c0_n0'', ''c1_n0'']" by code_simp
  have h5: "map_option (hd \<circ> nuggets) (currentChapterData ?s) = Some sampleNugget" by code_simp
  from toggling_twice_restores_ledger [OF h1 h2] h1 h2 h3 h4 h5 show ?thesis by simp
qed

text \<open>
  C8, the counterexample. The book is opened and the user moves to chapter 1 while
  chapter 0 is being analysed; the response for chapter 0 is displayed under index 1,
  and its first card is selected there, so that its note bears chapter index 1. Back on
  chapter 0, which is displayed from the cache, the same card is clicked twice: the
  first click removes the note, the second puts back a note of chapter index 0. Each
  toggle is a click on a card that is on display.
\<close>

theorem toggle_twice_counterexample:
  "map_option (hd \<circ> nuggets) (currentChapterData (run [Upload sampleFile, Jump 1,
        Settle 0 (sampleReply ''Zero'')] (initialState Map.empty))) = Some sampleNugget
   \<and> map_option (hd \<circ> nuggets) (currentChapterData (run [Upload sampleFile, Jump 1, Settle 0 (sampleReply ''Zero''), Toggle sampleNugget, Jump 0]
        (initialState Map.empty))) = Some sampleNugget
   \<and> map nid (noteList (run [Upload sampleFile, Jump 1, Settle 0 (sampleReply ''Zero''), Toggle sampleNugget, Jump 0]
        (initialState Map.empty))) = [''c0_n0'']
   \<and> map chapterIndex (noteList (run [Upload sampleFile, Jump 1, Settle 0 (sampleReply ''Zero''), Toggle sampleNugget, Jump 0]
        (initialState Map.empty))) = [1]
   \<and> noteList (run [Upload sampleFile, Jump 1, Settle 0 (sampleReply ''Zero''), Toggle sampleNugget, Jump 0,
        Toggle sampleNugget] (initialState Map.empty)) = []
   \<and> map_option (hd \<circ> nuggets) (currentChapterData (run [Upload sampleFile, Jump 1, Settle 0 (sampleReply ''Zero''), Toggle sampleNugget, Jump 0,
        Toggle sampleNugget] (initialState Map.empty))) = Some sampleNugget
   \<and> map nid (noteList (run [Upload sampleFile, Jump 1, Settle 0 (sampleReply ''Zero''), Toggle sampleNugget, Jump 0,
        Toggle sampleNugget, Toggle sampleNugget] (initialState Map.empty))) = [''c0_n0'']
   \<and> map chapterIndex (noteList (run [Upload sampleFile, Jump 1, Settle 0 (sampleReply ''Zero''), Toggle sampleNugget, Jump 0,
        Toggle sampleNugget, Toggle sampleNugget] (initialState Map.empty))) = [0]"
  by code_simp

section \<open>Closing the book\<close>

lemma step_Close:
  assumes "book s = Some b"
  shows "step Close s = reset s"
  using assms
  by (simp add: commit_def runEffects_def Let_def reset_def loadProgress_def saveProgress_def
        analyzeCurrent_def closureOf_def)

lemma step_Export:
  assumes "book s = Some b" "noteList s \<noteq> []"
  shows "step (Export True) s = reset (s\<lparr>localStorage := (localStorage s)(storageKey b := None)\<rparr>)"
  using assms
  by (simp add: commit_def runEffects_def Let_def reset_def downloadNotes_def loadProgress_def
        saveProgress_def analyzeCurrent_def closureOf_def)

text \<open>
  C7, as amended. Closing the book clears the state in memory (book, notes, cache,
  usage statistics, current index, displayed analysis) and leaves \<open>localStorage\<close> as it
  is, the snapshot of the book included. The snapshot is deleted by the export, when
  the user confirms that the session is to be cleared.
\<close>

theorem reset_keeps_the_snapshot:
  assumes "book s = Some b"
  shows "localStorage (step Close s) = localStorage s
         \<and> book (step Close s) = None \<and> noteList (step Close s) = []
         \<and> cachedChapters (step Close s) = Map.empty \<and> stats (step Close s) = zeroStats
         \<and> currentChapterIndex (step Close s) = 0 \<and> currentChapterData (step Close s) = None
         \<and> (noteList s = []
              \<or> localStorage (step (Export True) s) = (localStorage s)(storageKey b := None)
                 \<and> book (step (Export True) s) = None)"
proof -
  have "step Close s = reset s" using assms by (rule step_Close)
  moreover have "noteList s \<noteq> [] \<Longrightarrow>
      step (Export True) s = reset (s\<lparr>localStorage := (localStorage s)(storageKey b := None)\<rparr>)"
    using assms by (rule step_Export)
  ultimately show ?thesis by (auto simp: reset_def)
qed

theorem reset_keeps_the_snapshot_witness:
  "map_option book_title (book (run [Upload sampleFile, Settle 0 (sampleReply ''Zero''), Toggle sampleNugget]
      (initialState Map.empty))) = Some ''b''
   \<and> map_option (map nid \<circ> saved_notes)
        (localStorage (run [Upload sampleFile, Settle 0 (sampleReply ''Zero''), Toggle sampleNugget]
           (initialState Map.empty)) ''manan_progress_b'') = Some [''c0_n0'']
   \<and> localStorage (step Close (run [Upload sampleFile, Settle 0 (sampleReply ''Zero''), Toggle sampleNugget]
        (initialState Map.empty)))
       = localStorage (run [Upload sampleFile, Settle 0 (sampleReply ''Zero''), Toggle sampleNugget]
           (initialState Map.empty))
   \<and> book (step Close (run [Upload sampleFile, Settle 0 (sampleReply ''Zero''), Toggle sampleNugget]
        (initialState Map.empty))) = None
   \<and> localStorage (step (Export True) (run [Upload sampleFile, Settle 0 (sampleReply ''Zero''),
        Toggle sampleNugget] (initialState Map.empty))) ''manan_progress_b'' = None"
proof -
  let ?s = "run [Upload sampleFile, Settle 0 (sampleReply ''Zero''), Toggle sampleNugget]
      (initialState Map.empty)"
  obtain b where b: "book ?s = Some b"
  proof -
    have "book ?s \<noteq> None" by code_simp
    then show ?thesis using that by auto
  qed
  have t: "map_option book_title (book ?s) = Some ''b''" by code_simp
  have k: "storageKey b = ''manan_progress_b''"
    using t b by (simp add: storageKey_def isSpace_def)
  have n: "noteList ?s \<noteq> []" by code_simp
  have l: "map_option (map nid \<circ> saved_notes) (localStorage ?s ''manan_progress_b'') = Some [''c0_n0'']"
    by code_simp
  from reset_keeps_the_snapshot [OF b] t k n l show ?thesis by simp
qed

text \<open>
  C7, the counterexample. A book is opened, analysed and a note is taken; the snapshot
  under the book's key holds the note. After the book is closed the snapshot is still
  there, with the note.
\<close>

theorem snapshot_survives_reset_counterexample:
  "map_option (map nid \<circ> saved_notes)
     (localStorage (run [Upload sampleFile, Settle 0 (sampleReply ''Zero''), Toggle sampleNugget, Close]
        (initialState Map.empty)) ''manan_progress_b'') = Some [''c0_n0'']
   \<and> book (run [Upload sampleFile, Settle 0 (sampleReply ''Zero''), Toggle sampleNugget, Close]
        (initialState Map.empty)) = None
   \<and> noteList (run [Upload sampleFile, Settle 0 (sampleReply ''Zero''), Toggle sampleNugget, Close]
        (initialState Map.empty)) = []"
  by code_simp

section \<open>Changing a filter\<close>

text \<open>What each filter action, with the effects that follow it, does to a state with a book.\<close>

lemma step_ToggleType:
  assumes "book s = Some b"
  shows "step (ToggleType t) s =
     s\<lparr>selectedNuggetTypes := (if t \<in> set (selectedNuggetTypes s)
                  then filter (\<lambda>x. x \<noteq> t) (selectedNuggetTypes s)
                  else selectedNuggetTypes s @ [t]),
       cachedChapters := Map.empty, isAnalyzing := True, error := None,
       inflight := inflight s @ [\<lparr>req_kind = Direct, req_index = currentChapterIndex s,
                                   req_closure = closureOf s\<rparr>]\<rparr>"
  using assms
  by (simp add: commit_def runEffects_def Let_def toggleNuggetTypePreference_def
        analyzeChapter_def analyzeCurrent_def closureOf_def)

lemma step_ToggleBoilerplate:
  assumes "book s = Some b"
  shows "step ToggleBoilerplate s =
     (if isAnalyzing s then s\<lparr>analyzeBoilerplate := \<not> analyzeBoilerplate s, cachedChapters := Map.empty\<rparr>
      else s\<lparr>analyzeBoilerplate := \<not> analyzeBoilerplate s, cachedChapters := Map.empty,
             isAnalyzing := True, error := None,
             inflight := inflight s @ [\<lparr>req_kind = Direct, req_index = currentChapterIndex s,
                req_closure = (closureOf s)\<lparr>cl_boilerplate := \<not> analyzeBoilerplate s\<rparr>\<rparr>]\<rparr>)"
  using assms
  by (simp add: commit_def runEffects_def Let_def toggleAnalyzeBoilerplate_def
        analyzeChapter_def analyzeCurrent_def closureOf_def)

lemma step_ToggleBackMatter:
  assumes "book s = Some b"
  shows "step ToggleBackMatter s =
     (if isAnalyzing s then s\<lparr>analyzeBackMatter := \<not> analyzeBackMatter s, cachedChapters := Map.empty\<rparr>
      else s\<lparr>analyzeBackMatter := \<not> analyzeBackMatter s, cachedChapters := Map.empty,
             isAnalyzing := True, error := None,
             inflight := inflight s @ [\<lparr>req_kind = Direct, req_index = currentChapterIndex s,
                req_closure = (closureOf s)\<lparr>cl_backMatter := \<not> analyzeBackMatter s\<rparr>\<rparr>]\<rparr>)"
  using assms
  by (simp add: commit_def runEffects_def Let_def toggleAnalyzeBackMatter_def
        analyzeChapter_def analyzeCurrent_def closureOf_def)

lemma toggled_types_differ:
  "(if t \<in> set ts then filter (\<lambda>x. x \<noteq> t) ts else ts @ [t]) \<noteq> ts"
proof (cases "t \<in> set ts")
  case True
  have "filter (\<lambda>x. x \<noteq> t) ts \<noteq> ts"
  proof
    assume "filter (\<lambda>x. x \<noteq> t) ts = ts"
    then have "set (filter (\<lambda>x. x \<noteq> t) ts) = set ts" by simp
    with True show False by auto
  qed
  with True show ?thesis by simp
next
  case False
  then show ?thesis by simp
qed

text \<open>
  C2, as amended. While a book is loaded, each of the three filter actions changes
  its filter, empties the cache and leaves the controller in the analysing state. The
  toggle of a nugget type always issues a request for the selected index. The toggles
  of boilerplate and of back matter issue a request for the selected index, made with
  the new filter, when the analysing flag is not set as the button is pressed; when
  the flag is set, they issue none.
\<close>

theorem filter_change_clears_cache_and_analyzes:
  assumes "book s = Some b"
  shows "selectedNuggetTypes (step (ToggleType t) s) \<noteq> selectedNuggetTypes s
         \<and> cachedChapters (step (ToggleType t) s) = Map.empty
         \<and> isAnalyzing (step (ToggleType t) s) = True
         \<and> (\<exists>q. inflight (step (ToggleType t) s) = inflight s @ [q]
                \<and> req_kind q = Direct \<and> req_index q = currentChapterIndex s)
         \<and> analyzeBoilerplate (step ToggleBoilerplate s) = (\<not> analyzeBoilerplate s)
         \<and> cachedChapters (step ToggleBoilerplate s) = Map.empty
         \<and> isAnalyzing (step ToggleBoilerplate s) = True
         \<and> inflight (step ToggleBoilerplate s)
             = (if isAnalyzing s then inflight s
                else inflight s @ [\<lparr>req_kind = Direct, req_index = currentChapterIndex s,
                       req_closure = (closureOf s)\<lparr>cl_boilerplate := \<not> analyzeBoilerplate s\<rparr>\<rparr>])
         \<and> analyzeBackMatter (step ToggleBackMatter s) = (\<not> analyzeBackMatter s)
         \<and> cachedChapters (step ToggleBackMatter s) = Map.empty
         \<and> isAnalyzing (step ToggleBackMatter s) = True
         \<and> inflight (step ToggleBackMatter s)
             = (if isAnalyzing s then inflight s
                else inflight s @ [\<lparr>req_kind = Direct, req_index = currentChapterIndex s,
                       req_closure = (closureOf s)\<lparr>cl_backMatter := \<not> analyzeBackMatter s\<rparr>\<rparr>])"
  unfolding step_ToggleType [OF assms] step_ToggleBoilerplate [OF assms]
    step_ToggleBackMatter [OF assms]
  using toggled_types_differ [of t "selectedNuggetTypes s"]
  by simp

theorem filter_change_clears_cache_and_analyzes_witness:
  "map_option book_title (book (run [Upload sampleFile, Settle 0 (sampleReply ''Zero'')] (initialState Map.empty))) = Some ''b''
   \<and> isAnalyzing (run [Upload sampleFile, Settle 0 (sampleReply ''Zero'')] (initialState Map.empty)) = False
   \<and> cachedChapters (run [Upload sampleFile, Settle 0 (sampleReply ''Zero'')] (initialState Map.empty)) 0 \<noteq> None
   \<and> inflight (run [Upload sampleFile, Settle 0 (sampleReply ''Zero'')] (initialState Map.empty)) = []
   \<and> analyzeBoilerplate (step ToggleBoilerplate (run [Upload sampleFile, Settle 0 (sampleReply ''Zero'')] (initialState Map.empty))) = True
   \<and> cachedChapters (step ToggleBoilerplate (run [Upload sampleFile, Settle 0 (sampleReply ''Zero'')] (initialState Map.empty))) = Map.empty
   \<and> isAnalyzing (step ToggleBoilerplate (run [Upload sampleFile, Settle 0 (sampleReply ''Zero'')] (initialState Map.empty))) = True
   \<and> map req_index (inflight (step ToggleBoilerplate (run [Upload sampleFile, Settle 0 (sampleReply ''Zero'')] (initialState Map.empty)))) = [0]
   \<and> map (cl_boilerplate \<circ> req_closure) (inflight (step ToggleBoilerplate (run [Upload sampleFile, Settle 0 (sampleReply ''Zero'')] (initialState Map.empty)))) = [True]
   \<and> cachedChapters (step (ToggleType QUOTE) (run [Upload sampleFile, Settle 0 (sampleReply ''Zero'')] (initialState Map.empty))) = Map.empty
   \<and> isAnalyzing (step (ToggleType QUOTE) (run [Upload sampleFile, Settle 0 (sampleReply ''Zero'')] (initialState Map.empty))) = True
   \<and> map req_index (inflight (step (ToggleType QUOTE) (run [Upload sampleFile, Settle 0 (sampleReply ''Zero'')] (initialState Map.empty)))) = [0]"
proof -
  let ?s = "run [Upload sampleFile, Settle 0 (sampleReply ''Zero'')] (initialState Map.empty)"
  obtain b where b: "book ?s = Some b"
  proof -
    have "book ?s \<noteq> None" by code_simp
    then show ?thesis using that by auto
  qed
  have h: "map_option book_title (book ?s) = Some ''b''" "isAnalyzing ?s = False"
    "cachedChapters ?s 0 \<noteq> None" "inflight ?s = []" "currentChapterIndex ?s = 0"
    "analyzeBoilerplate ?s = False"
    by code_simp+
  from filter_change_clears_cache_and_analyzes [OF b, of QUOTE] h
  show ?thesis by (auto simp: closureOf_def)
qed

text \<open>
  C2, the counterexample. Right after the book is opened the analysis of chapter 0 is
  running, requested without boilerplate. The user switches boilerplate on: no request
  is issued. The one in flight settles, and its result, made under the former filter,
  is what is cached and displayed for the current chapter, with nothing more in flight.
  And on the landing page, where no book is loaded, the button of a nugget type changes
  the selection without any request or analysing state.
\<close>

theorem filter_toggle_while_analyzing_counterexample:
  "isAnalyzing (run [Upload sampleFile] (initialState Map.empty)) = True
   \<and> inflight (run [Upload sampleFile, ToggleBoilerplate] (initialState Map.empty)) = inflight (run [Upload sampleFile] (initialState Map.empty))
   \<and> map (cl_boilerplate \<circ> req_closure) (inflight (run [Upload sampleFile, ToggleBoilerplate] (initialState Map.empty))) = [False]
   \<and> analyzeBoilerplate (run [Upload sampleFile, ToggleBoilerplate] (initialState Map.empty)) = True
   \<and> inflight (run [Upload sampleFile, ToggleBoilerplate, Settle 0 (sampleReply ''Zero'')]
        (initialState Map.empty)) = []
   \<and> isAnalyzing (run [Upload sampleFile, ToggleBoilerplate, Settle 0 (sampleReply ''Zero'')]
        (initialState Map.empty)) = False
   \<and> currentChapterData (run [Upload sampleFile, ToggleBoilerplate, Settle 0 (sampleReply ''Zero'')]
        (initialState Map.empty)) = cachedChapters (run [Upload sampleFile, ToggleBoilerplate, Settle 0 (sampleReply ''Zero'')]
        (initialState Map.empty)) 0
   \<and> map_option title (cachedChapters (run [Upload sampleFile, ToggleBoilerplate, Settle 0 (sampleReply ''Zero'')]
        (initialState Map.empty)) 0) = Some (Some ''Zero'')
   \<and> selectedNuggetTypes (run [ToggleType QUOTE] (initialState Map.empty)) = [LEARNING, INSIGHT]
   \<and> isAnalyzing (run [ToggleType QUOTE] (initialState Map.empty)) = False
   \<and> inflight (run [ToggleType QUOTE] (initialState Map.empty)) = []"
  by code_simp

section \<open>Requests in flight\<close>


lemma analyzeChapter_fields [simp]:
  "book (analyzeChapter cl i s) = book s"
  "currentChapterIndex (analyzeChapter cl i s) = currentChapterIndex s"
  "analyzeBackMatter (analyzeChapter cl i s) = analyzeBackMatter s"
  "analyzeBoilerplate (analyzeChapter cl i s) = analyzeBoilerplate s"
  "selectedNuggetTypes (analyzeChapter cl i s) = selectedNuggetTypes s"
  "noteList (analyzeChapter cl i s) = noteList s"
  "stats (analyzeChapter cl i s) = stats s"
  by (simp_all add: analyzeChapter_def split: option.splits)

lemma analyzeChapter_inflight:
  "length (inflight (analyzeChapter cl i s)) \<le> length (inflight s) + 1"
  by (simp add: analyzeChapter_def split: option.splits)

lemma saveProgress_fields [simp]:
  "book (saveProgress r s) = book s"
  "currentChapterIndex (saveProgress r s) = currentChapterIndex s"
  "analyzeBackMatter (saveProgress r s) = analyzeBackMatter s"
  "analyzeBoilerplate (saveProgress r s) = analyzeBoilerplate s"
  "selectedNuggetTypes (saveProgress r s) = selectedNuggetTypes s"
  "noteList (saveProgress r s) = noteList s"
  "stats (saveProgress r s) = stats s"
  "inflight (saveProgress r s) = inflight s"
  by (simp_all add: saveProgress_def split: option.splits)

lemma runEffects_fields:
  assumes "book p = book c"
  shows "sameDeps c (runEffects False p c)"
    and "noteList (runEffects False p c) = noteList c"
    and "stats (runEffects False p c) = stats c"
    and "length (inflight (runEffects False p c)) \<le> length (inflight c) + 1"
  using assms analyzeChapter_inflight [of "closureOf c" "currentChapterIndex c" c]
    analyzeChapter_inflight [of "closureOf c" "currentChapterIndex c" "saveProgress c c"]
  by (simp_all add: runEffects_def Let_def sameDeps_def analyzeCurrent_def)


lemma loadProgress_book [simp]: "book (loadProgress r s) = book s"
  by (simp add: loadProgress_def split: option.splits)

lemma analyzeCurrent_book [simp]: "book (analyzeCurrent r s) = book s"
  by (simp add: analyzeCurrent_def)

lemma runEffects_book: "book (runEffects r p c) = book c"
  by (simp add: runEffects_def Let_def)

text \<open>Two rounds are enough: a third one finds no dependency changed.\<close>

lemma third_round_idle: "runEffects False (runEffects r p c) (commit r p c) = commit r p c"
proof -
  let ?r1 = "runEffects r p c"
  have b: "book c = book ?r1" by (simp add: runEffects_book)
  have "runEffects False ?r1 (runEffects False c ?r1) = runEffects False c ?r1"
    using runEffects_quiet [OF runEffects_fields(1) [OF b]] runEffects_fields(2,3) [OF b]
    by simp
  then show ?thesis by (simp add: commit_def)
qed





lemma effects_prefetches [simp]:
  "prefetchesInFlight (loadProgress r s) = prefetchesInFlight s"
  "isPrefetching (loadProgress r s) = isPrefetching s"
  "prefetchesInFlight (saveProgress r s) = prefetchesInFlight s"
  "isPrefetching (saveProgress r s) = isPrefetching s"
  "prefetchesInFlight (analyzeChapter cl i s) = prefetchesInFlight s"
  "isPrefetching (analyzeChapter cl i s) = isPrefetching s"
  "prefetchesInFlight (analyzeCurrent r s) = prefetchesInFlight s"
  "isPrefetching (analyzeCurrent r s) = isPrefetching s"
  by (simp_all add: loadProgress_def saveProgress_def analyzeCurrent_def
        analyzeChapter_def prefetchesInFlight_def split: option.splits)















section \<open>Tags\<close>

text \<open>
  C4. Chapter 0 is analysed, its first nugget is selected, and the tag
  \<open>philosophy\<close> is put on it. The note and the displayed nugget carry the tag, the
  cached analysis of chapter 0 does not: \<open>updateNuggetTags\<close> writes to the displayed
  analysis and to the notes only. After going to chapter 1 and back, chapter 0 is
  displayed from the cache, without any request, and its nugget shows no tag while
  the note still has it.
\<close>

theorem tags_lost_in_cache:
  "map tags (noteList (run [Upload sampleFile, Settle 0 (sampleReply ''Zero''), Toggle sampleNugget,
        UpdateTags ''c0_n0'' [''philosophy'']] (initialState Map.empty)))
     = [Some [''philosophy'']]
   \<and> map_option (map tags \<circ> nuggets)
        (currentChapterData (run [Upload sampleFile, Settle 0 (sampleReply ''Zero''), Toggle sampleNugget,
           UpdateTags ''c0_n0'' [''philosophy'']] (initialState Map.empty)))
       = Some [Some [''philosophy''], None]
   \<and> map_option (map tags \<circ> nuggets)
        (cachedChapters (run [Upload sampleFile, Settle 0 (sampleReply ''Zero''), Toggle sampleNugget,
           UpdateTags ''c0_n0'' [''philosophy'']] (initialState Map.empty)) 0)
       = Some [None, None]
   \<and> inflight (run [Upload sampleFile, Settle 0 (sampleReply ''Zero''), Toggle sampleNugget,
        UpdateTags ''c0_n0'' [''philosophy''], Jump 1, Settle 0 (sampleReply ''One''), Jump 0]
        (initialState Map.empty)) = []
   \<and> map_option (map nid \<circ> nuggets)
        (currentChapterData (run [Upload sampleFile, Settle 0 (sampleReply ''Zero''), Toggle sampleNugget,
           UpdateTags ''c0_n0'' [''philosophy''], Jump 1, Settle 0 (sampleReply ''One''), Jump 0]
           (initialState Map.empty)))
       = Some [''c0_n0'', ''c0_n1'']
   \<and> map_option (map tags \<circ> nuggets)
        (currentChapterData (run [Upload sampleFile, Settle 0 (sampleReply ''Zero''), Toggle sampleNugget,
           UpdateTags ''c0_n0'' [''philosophy''], Jump 1, Settle 0 (sampleReply ''One''), Jump 0]
           (initialState Map.empty)))
       = Some [None, None]
   \<and> map tags (noteList (run [Upload sampleFile, Settle 0 (sampleReply ''Zero''), Toggle sampleNugget,
        UpdateTags ''c0_n0'' [''philosophy''], Jump 1, Settle 0 (sampleReply ''One''), Jump 0]
        (initialState Map.empty)))
       = [Some [''philosophy'']]"
  by code_simp

end
